(* ===== verification/Resize_Prelude.thy ===== *)
theory Resize_Prelude
  imports Complex_Main
begin

text \<open>
  Shared vocabulary of the resize development. Pixel values and filter weights are
  Halide \<open>float\<close>s in the source and exact reals here; pixel coordinates are Halide's
  32-bit \<open>int\<close> variables and are \<open>int\<close> here (the image sizes for which a coordinate
  expression overflows are far beyond any buffer Halide can allocate). The theory holds
  Halide's \<open>clamp\<close> intrinsic, the facts about it, the facts about finite sums
  over a reduction domain \<open>RDom r(0, n)\<close> that the filter proofs share, bounds on
  the number of sample points in an interval, and the list form of a tap sum.
\<close>

type_synonym coord = int
type_synonym sample = real

text \<open>A Halide function of three integer coordinates, as \<open>input\<close>, \<open>clamped\<close> and
  every intermediate \<open>Func\<close> of the pipeline are.\<close>
type_synonym func3 = "coord \<Rightarrow> coord \<Rightarrow> coord \<Rightarrow> sample"

named_theorems resize_simps "evaluation rules of the resize model"

text \<open>Halide's \<open>clamp(a, min_val, max_val)\<close> is \<open>max(min(a, max_val), min_val)\<close>.\<close>

definition clamp :: "'a::linorder \<Rightarrow> 'a \<Rightarrow> 'a \<Rightarrow> 'a" where
  "clamp a lo hi = max (min a hi) lo"

subsection \<open>Clamping\<close>

lemma clamp_lower: "lo \<le> clamp a lo hi"
  by (simp add: clamp_def)

lemma clamp_upper: "lo \<le> hi \<Longrightarrow> clamp a lo hi \<le> hi"
  by (simp add: clamp_def)

lemma clamp_id [simp]: "lo \<le> a \<Longrightarrow> a \<le> hi \<Longrightarrow> clamp a lo hi = a"
  by (simp add: clamp_def)

lemma clamp_below: "a \<le> lo \<Longrightarrow> lo \<le> hi \<Longrightarrow> clamp a lo hi = lo"
  by (simp add: clamp_def)

lemma clamp_above: "hi \<le> a \<Longrightarrow> lo \<le> hi \<Longrightarrow> clamp a lo hi = hi"
  by (simp add: clamp_def)

lemma clamp_mono: "a \<le> b \<Longrightarrow> clamp a lo hi \<le> clamp b lo hi"
  by (simp add: clamp_def max.coboundedI1 min.coboundedI1)

lemmas clamp_bounds = clamp_lower clamp_upper

subsection \<open>Sums over a reduction domain\<close>

text \<open>\<open>RDom r(0, n)\<close> iterates \<open>r = 0, \<dots>, n - 1\<close>; the tap \<open>r\<close> of a window
  starting at \<open>b\<close> reads source index \<open>r + b\<close>. Summing over the taps is summing over
  the integer interval \<open>[b, b + n)\<close>.\<close>

lemma image_int_shift: "(\<lambda>r. int r + b) ` {..<n} = {b..<b + int n}"
proof
  show "(\<lambda>r. int r + b) ` {..<n} \<subseteq> {b..<b + int n}" by auto
next
  show "{b..<b + int n} \<subseteq> (\<lambda>r. int r + b) ` {..<n}"
  proof
    fix i assume "i \<in> {b..<b + int n}"
    then have "i = int (nat (i - b)) + b" and "nat (i - b) \<in> {..<n}" by auto
    then show "i \<in> (\<lambda>r. int r + b) ` {..<n}" by blast
  qed
qed

lemma sum_window_int:
  "(\<Sum>r<n. F (int r + b)) = (\<Sum>i\<in>{b..<b + int n}. F i)"
proof -
  have "inj_on (\<lambda>r. int r + b) {..<n}" by (auto simp: inj_on_def)
  then have "(\<Sum>i\<in>(\<lambda>r. int r + b) ` {..<n}. F i) = (\<Sum>r<n. F (int r + b))"
    by (rule sum.reindex_cong) simp_all
  then show ?thesis by (simp add: image_int_shift)
qed

lemma sum_nonneg_pos:
  fixes f :: "nat \<Rightarrow> real"
  assumes "\<And>r. r < n \<Longrightarrow> 0 \<le> f r" and "j < n" and "0 < f j"
  shows "0 < (\<Sum>r<n. f r)"
proof -
  have "f j \<le> (\<Sum>r<n. f r)"
    using assms by (intro member_le_sum) auto
  with assms(3) show ?thesis by linarith
qed

lemma sum_convex_bounds:
  fixes w f :: "nat \<Rightarrow> real"
  assumes "\<And>r. r < n \<Longrightarrow> 0 \<le> w r" and "(\<Sum>r<n. w r) = 1"
    and "\<And>r. r < n \<Longrightarrow> lo \<le> f r \<and> f r \<le> hi"
  shows "lo \<le> (\<Sum>r<n. w r * f r) \<and> (\<Sum>r<n. w r * f r) \<le> hi"
proof
  have "(\<Sum>r<n. w r * lo) \<le> (\<Sum>r<n. w r * f r)"
    using assms by (intro sum_mono mult_left_mono) auto
  then show "lo \<le> (\<Sum>r<n. w r * f r)"
    using assms(2) by (simp add: sum_distrib_right[symmetric])
next
  have "(\<Sum>r<n. w r * f r) \<le> (\<Sum>r<n. w r * hi)"
    using assms by (intro sum_mono mult_left_mono) auto
  then show "(\<Sum>r<n. w r * f r) \<le> hi"
    using assms(2) by (simp add: sum_distrib_right[symmetric])
qed

text \<open>Normalising by the total: the weights of a window divided by their sum add up
  to one whenever the sum is not zero.\<close>

lemma sum_divide_total:
  fixes f :: "nat \<Rightarrow> real"
  assumes "(\<Sum>r<n. f r) \<noteq> 0"
  shows "(\<Sum>r<n. f r / (\<Sum>r<n. f r)) = 1"
  using assms by (simp add: sum_divide_distrib[symmetric])

text \<open>A window sum that picks out one source index.\<close>

lemma sum_window_delta:
  assumes "b \<le> x" and "x < b + int n"
  shows "(\<Sum>r<n. if int r + b = x then F (int r + b) else 0) = F x"
proof -
  have "(\<Sum>r<n. if int r + b = x then F (int r + b) else 0)
        = (\<Sum>i\<in>{b..<b + int n}. if i = x then F i else 0)"
    by (rule sum_window_int)
  also have "\<dots> = F x" using assms by simp
  finally show ?thesis .
qed

subsection \<open>Counting sample points in an interval\<close>

text \<open>The samples \<open>t0 + r * s\<close> of a window that fall in a closed interval are the
  naturals \<open>r\<close> between two real bounds; their number is within one of the
  interval's length over the spacing.\<close>

lemma int_image_nat_between:
  "int ` {r::nat. \<alpha> \<le> real r \<and> real r \<le> \<beta>} = {i. \<lceil>\<alpha>\<rceil> \<le> i \<and> i \<le> \<lfloor>\<beta>\<rfloor> \<and> 0 \<le> i}"
proof
  show "int ` {r::nat. \<alpha> \<le> real r \<and> real r \<le> \<beta>} \<subseteq> {i. \<lceil>\<alpha>\<rceil> \<le> i \<and> i \<le> \<lfloor>\<beta>\<rfloor> \<and> 0 \<le> i}"
    by (auto simp: ceiling_le_iff le_floor_iff)
next
  show "{i. \<lceil>\<alpha>\<rceil> \<le> i \<and> i \<le> \<lfloor>\<beta>\<rfloor> \<and> 0 \<le> i} \<subseteq> int ` {r::nat. \<alpha> \<le> real r \<and> real r \<le> \<beta>}"
  proof
    fix i assume i: "i \<in> {i. \<lceil>\<alpha>\<rceil> \<le> i \<and> i \<le> \<lfloor>\<beta>\<rfloor> \<and> 0 \<le> i}"
    then have "i = int (nat i)" "\<alpha> \<le> real (nat i)" "real (nat i) \<le> \<beta>"
      by (auto simp: ceiling_le_iff le_floor_iff)
    then show "i \<in> int ` {r::nat. \<alpha> \<le> real r \<and> real r \<le> \<beta>}" by blast
  qed
qed

lemma card_nat_between:
  "card {r::nat. \<alpha> \<le> real r \<and> real r \<le> \<beta>} = card {i. \<lceil>\<alpha>\<rceil> \<le> i \<and> i \<le> \<lfloor>\<beta>\<rfloor> \<and> 0 \<le> i}"
proof -
  have "inj_on int {r::nat. \<alpha> \<le> real r \<and> real r \<le> \<beta>}" by (simp add: inj_on_def)
  then have "card (int ` {r::nat. \<alpha> \<le> real r \<and> real r \<le> \<beta>}) = card {r::nat. \<alpha> \<le> real r \<and> real r \<le> \<beta>}"
    by (rule card_image)
  then show ?thesis by (simp add: int_image_nat_between)
qed

lemma card_nat_between_le:
  assumes "\<alpha> \<le> \<beta>"
  shows "real (card {r::nat. \<alpha> \<le> real r \<and> real r \<le> \<beta>}) \<le> \<beta> - \<alpha> + 1"
proof -
  have "{i. \<lceil>\<alpha>\<rceil> \<le> i \<and> i \<le> \<lfloor>\<beta>\<rfloor> \<and> 0 \<le> i} \<subseteq> {\<lceil>\<alpha>\<rceil>..\<lfloor>\<beta>\<rfloor>}" by auto
  then have "card {i. \<lceil>\<alpha>\<rceil> \<le> i \<and> i \<le> \<lfloor>\<beta>\<rfloor> \<and> 0 \<le> i} \<le> nat (\<lfloor>\<beta>\<rfloor> + 1 - \<lceil>\<alpha>\<rceil>)"
    using card_mono[OF finite_atLeastAtMost_int] card_atLeastAtMost_int by (metis add.commute add_diff_eq)
  moreover have "real (nat (\<lfloor>\<beta>\<rfloor> + 1 - \<lceil>\<alpha>\<rceil>)) \<le> \<beta> - \<alpha> + 1"
    using assms of_int_floor_le[of \<beta>] le_of_int_ceiling[of \<alpha>] by linarith
  ultimately show ?thesis by (simp add: card_nat_between)
qed

lemma card_nat_between_ge:
  assumes "0 \<le> \<alpha>" and "\<alpha> + 1 \<le> \<beta>"
  shows "1 \<le> card {r::nat. \<alpha> \<le> real r \<and> real r \<le> \<beta>}"
    and "\<beta> - \<alpha> - 1 < real (card {r::nat. \<alpha> \<le> real r \<and> real r \<le> \<beta>})"
proof -
  have e: "{i. \<lceil>\<alpha>\<rceil> \<le> i \<and> i \<le> \<lfloor>\<beta>\<rfloor> \<and> 0 \<le> i} = {\<lceil>\<alpha>\<rceil>..\<lfloor>\<beta>\<rfloor>}"
    using assms by (auto intro: order_trans[rotated])
  have c: "card {r::nat. \<alpha> \<le> real r \<and> real r \<le> \<beta>} = nat (\<lfloor>\<beta>\<rfloor> + 1 - \<lceil>\<alpha>\<rceil>)"
    by (simp add: card_nat_between e)
  have "of_int \<lceil>\<alpha>\<rceil> \<le> \<beta>" using ceiling_correct[of \<alpha>] assms by linarith
  then have "\<lceil>\<alpha>\<rceil> \<le> \<lfloor>\<beta>\<rfloor>" by (simp add: le_floor_iff)
  then show "1 \<le> card {r::nat. \<alpha> \<le> real r \<and> real r \<le> \<beta>}" by (simp add: c)
  show "\<beta> - \<alpha> - 1 < real (card {r::nat. \<alpha> \<le> real r \<and> real r \<le> \<beta>})"
    using c \<open>\<lceil>\<alpha>\<rceil> \<le> \<lfloor>\<beta>\<rfloor>\<close> floor_correct[of \<beta>] ceiling_correct[of \<alpha>] by simp linarith
qed

lemma finite_nat_between: "finite {r::nat. \<alpha> \<le> real r \<and> real r \<le> \<beta>}"
proof (rule finite_subset)
  show "{r::nat. \<alpha> \<le> real r \<and> real r \<le> \<beta>} \<subseteq> {..nat \<lceil>\<beta>\<rceil>}"
    using le_of_int_ceiling[of \<beta>] by (auto simp: le_nat_iff) linarith
qed simp

lemma progression_between:
  assumes "0 < s"
  shows "((a - t0) / s \<le> real r \<and> real r \<le> (b - t0) / s) \<longleftrightarrow> (a \<le> t0 + real r * s \<and> t0 + real r * s \<le> b)"
  using assms by (simp add: pos_divide_le_eq pos_le_divide_eq algebra_simps)

lemma sum_if_card:
  fixes T :: nat and c :: real
  shows "(\<Sum>r<T. if P r then c else 0) = c * real (card {r \<in> {..<T}. P r})"
proof -
  have "(\<Sum>r\<in>{r \<in> {..<T}. P r}. c) = (\<Sum>r<T. if P r then c else 0)"
    using sum.inter_filter[OF finite_lessThan[of T], of "\<lambda>_. c" P] by simp
  then show ?thesis by (simp add: mult.commute)
qed

subsection \<open>Lists of taps\<close>

lemma those_map_Some [simp]: "those (map (\<lambda>x. Some (f x)) xs) = Some (map f xs)"
  by (induction xs) simp_all

lemma sum_list_map_upt: "sum_list (map f [0..<n]) = (\<Sum>r<n. f r)"
  by (simp add: sum_list_distinct_conv_sum_set atLeast0LessThan)

end
