(* ===== verification/Kernels.thy ===== *)
theory Kernels
  imports Resize_Prelude
begin

text \<open>
  The kernel library of \<open>src/apps/resize/resize_generator.cpp\<close>, lines 5--61: the enum
  \<open>InterpolationType\<close>, the four kernel functions \<open>kernel_box\<close>, \<open>kernel_linear\<close>,
  \<open>kernel_cubic\<close> and \<open>kernel_lanczos\<close> (with the helper \<open>sinc\<close>), the struct
  \<open>KernelInfo\<close> and the table \<open>kernel_info[]\<close>, and the name table of the generator
  parameter \<open>interpolation_type\<close>. A Halide \<open>Expr\<close> of type float is a real here;
  \<open>select(c, a, b)\<close> is \<open>if c then a else b\<close>; \<open>float(M_PI)\<close> is \<open>pi\<close>.
  The lemmas give each kernel's value at the centre, its symmetry, its support, its sign,
  and the partition-of-unity identities that the weight generator relies on.
\<close>

datatype InterpolationType = Box | Linear | Cubic | Lanczos

text \<open>The C enum's numeric value, used to index \<open>kernel_info[]\<close>.\<close>

fun interp_index :: "InterpolationType \<Rightarrow> nat" where
  "interp_index Box = 0"
| "interp_index Linear = 1"
| "interp_index Cubic = 2"
| "interp_index Lanczos = 3"

definition kernel_box :: "real \<Rightarrow> real" where
  "kernel_box x = (let xx = \<bar>x\<bar> in if xx \<le> 1/2 then 1 else 0)"

definition kernel_linear :: "real \<Rightarrow> real" where
  "kernel_linear x = (let xx = \<bar>x\<bar> in if xx < 1 then 1 - xx else 0)"

definition kernel_cubic :: "real \<Rightarrow> real" where
  "kernel_cubic x =
     (let xx = \<bar>x\<bar>; xx2 = xx * xx; xx3 = xx2 * xx; a = - 1/2 in
      if xx < 1 then (a + 2) * xx3 - (a + 3) * xx2 + 1
      else if xx < 2 then a * xx3 - 5 * a * xx2 + 8 * a * xx - 4 * a
      else 0)"

definition sinc :: "real \<Rightarrow> real" where
  "sinc x = sin (pi * x) / x"

definition kernel_lanczos :: "real \<Rightarrow> real" where
  "kernel_lanczos x =
     (let value = sinc x * sinc (x / 3);
          value = (if x = 0 then 1 else value)
      in if x > 3 \<or> x < - 3 then 0 else value)"

record KernelInfo =
  name :: string
  taps :: int
  kernel :: "real \<Rightarrow> real"

definition kernel_info_table :: "KernelInfo list" where
  "kernel_info_table =
     [\<lparr>name = ''box'', taps = 1, kernel = kernel_box\<rparr>,
      \<lparr>name = ''linear'', taps = 2, kernel = kernel_linear\<rparr>,
      \<lparr>name = ''cubic'', taps = 4, kernel = kernel_cubic\<rparr>,
      \<lparr>name = ''lanczos'', taps = 6, kernel = kernel_lanczos\<rparr>]"

text \<open>\<open>kernel_info[interpolation_type]\<close>: the array indexed by the enum value.\<close>

definition kernel_info :: "InterpolationType \<Rightarrow> KernelInfo" where
  "kernel_info t = kernel_info_table ! interp_index t"

text \<open>The string table of \<open>GeneratorParam<InterpolationType> interpolation_type\<close>
  and its default. Setting the parameter from a string that is not in the table is a
  configuration error, raised before any pipeline is built.\<close>

definition interpolation_type_names :: "(string \<times> InterpolationType) list" where
  "interpolation_type_names =
     [(''box'', Box), (''linear'', Linear), (''cubic'', Cubic), (''lanczos'', Lanczos)]"

definition interpolation_type_default :: InterpolationType where
  "interpolation_type_default = Cubic"

datatype param_error = UnknownEnumValue string

definition set_interpolation_type :: "string option \<Rightarrow> param_error + InterpolationType" where
  "set_interpolation_type s =
     (case s of
        None \<Rightarrow> Inr interpolation_type_default
      | Some v \<Rightarrow>
          (case map_of interpolation_type_names v of
             None \<Rightarrow> Inl (UnknownEnumValue v)
           | Some t \<Rightarrow> Inr t))"

text \<open>The Lanczos kernel as the spec (section 4.1) defines it, with the normalised
  \<open>sinc(x) = sin(pi x) / (pi x)\<close>: the reference the code's kernel is compared with.\<close>

definition sinc_spec :: "real \<Rightarrow> real" where
  "sinc_spec x = sin (pi * x) / (pi * x)"

definition lanczos_spec :: "real \<Rightarrow> real" where
  "lanczos_spec x = (if \<bar>x\<bar> < 3 then (if x = 0 then 1 else sinc_spec x * sinc_spec (x / 3)) else 0)"

subsection \<open>The table\<close>

lemma kernel_info_simps [simp, resize_simps]:
  "kernel_info Box = \<lparr>name = ''box'', taps = 1, kernel = kernel_box\<rparr>"
  "kernel_info Linear = \<lparr>name = ''linear'', taps = 2, kernel = kernel_linear\<rparr>"
  "kernel_info Cubic = \<lparr>name = ''cubic'', taps = 4, kernel = kernel_cubic\<rparr>"
  "kernel_info Lanczos = \<lparr>name = ''lanczos'', taps = 6, kernel = kernel_lanczos\<rparr>"
  by (simp_all add: kernel_info_def kernel_info_table_def)

lemma taps_pos: "0 < taps (kernel_info t)"
  by (cases t) simp_all

subsection \<open>Kernel shapes\<close>

lemma kernel_at_zero [simp]: "kernel (kernel_info t) 0 = 1"
  by (cases t) (simp_all add: kernel_box_def kernel_linear_def kernel_cubic_def kernel_lanczos_def)

lemma sinc_even: "sinc (- x) = sinc x"
  by (simp add: sinc_def)

text \<open>C12: every kernel is an even function of the offset.\<close>

theorem kernel_even: "kernel (kernel_info t) (- x) = kernel (kernel_info t) x"
  by (cases t) (auto simp: kernel_box_def kernel_linear_def kernel_cubic_def kernel_lanczos_def sinc_def)

lemma kernel_lanczos_vanishes: "3 \<le> \<bar>x\<bar> \<Longrightarrow> kernel_lanczos x = 0"
proof -
  assume h: "3 \<le> \<bar>x\<bar>"
  show ?thesis
  proof (cases "x > 3 \<or> x < -3")
    case True
    then show ?thesis by (simp add: kernel_lanczos_def)
  next
    case False
    with h have "x = 3 \<or> x = -3" by linarith
    then show ?thesis by (auto simp: kernel_lanczos_def sinc_def)
  qed
qed

text \<open>Every kernel but the box is zero from half its tap count on; the box kernel
  still weighs the points at distance exactly one half.\<close>

lemma kernel_vanishes:
  assumes "t \<noteq> Box" and "of_int (taps (kernel_info t)) / 2 \<le> \<bar>x\<bar>"
  shows "kernel (kernel_info t) x = 0"
  using assms
  by (cases t) (auto simp: kernel_linear_def kernel_cubic_def kernel_lanczos_vanishes Let_def)

lemma kernel_box_vanishes: "1/2 < \<bar>x\<bar> \<Longrightarrow> kernel_box x = 0"
  by (simp add: kernel_box_def)

lemma kernel_box_nonneg: "0 \<le> kernel_box x"
  by (simp add: kernel_box_def)

lemma kernel_linear_nonneg: "0 \<le> kernel_linear x"
  by (simp add: kernel_linear_def Let_def)

lemma kernel_box_one: "\<bar>x\<bar> \<le> 1/2 \<Longrightarrow> kernel_box x = 1"
  by (simp add: kernel_box_def)

lemma kernel_linear_pos: "\<bar>x\<bar> < 1 \<Longrightarrow> 0 < kernel_linear x"
  by (simp add: kernel_linear_def)

subsection \<open>Partition of unity\<close>

text \<open>Sampled at unit spacing, the box, linear and cubic kernels add up to one: the
  facts behind the exact normalisation of the upsampling weights.\<close>

lemma kernel_linear_unity:
  assumes "-1 \<le> d" and "d < 0"
  shows "kernel_linear d + kernel_linear (d + 1) = 1"
  using assms by (auto simp: kernel_linear_def Let_def)

lemma kernel_cubic_unity:
  assumes "-2 \<le> d" and "d < -1"
  shows "kernel_cubic d + kernel_cubic (d + 1) + kernel_cubic (d + 2) + kernel_cubic (d + 3) = 1"
proof -
  define p where "p = d + 2"
  have p: "0 \<le> p" "p < 1" using assms by (simp_all add: p_def)
  have d: "d = p - 2" "d + 1 = p - 1" "d + 2 = p" "d + 3 = p + 1" by (simp_all add: p_def)
  show ?thesis
  proof (cases "p = 0")
    case True
    then show ?thesis unfolding d by (simp add: kernel_cubic_def)
  next
    case False
    with p have "0 < p" by simp
    with p have a: "\<bar>p - 2\<bar> = 2 - p" "\<bar>p - 1\<bar> = 1 - p" "\<bar>p\<bar> = p" "\<bar>p + 1\<bar> = p + 1"
      by simp_all
    show ?thesis unfolding d kernel_cubic_def Let_def a
      using \<open>0 < p\<close> p by (simp add: algebra_simps power2_eq_square power3_eq_cube)
  qed
qed

subsection \<open>Bounds on the cubic kernel\<close>

text \<open>The cubic kernel is at least \<open>9/16\<close> on \<open>[-1/2, 1/2]\<close>, non-negative on
  \<open>(-1, 1)\<close>, and its negative lobes on \<open>1 \<le> |t| < 2\<close> reach only \<open>-2/27\<close> (at
  \<open>|t| = 4/3\<close>). Sampled at any spacing \<open>s \<le> 1\<close> over its whole support, the
  central samples outweigh the lobes: the sum of the samples is positive.\<close>

lemma kernel_cubic_abs:
  "kernel_cubic t =
     (if \<bar>t\<bar> < 1 then 3/2 * (\<bar>t\<bar> * \<bar>t\<bar> * \<bar>t\<bar>) - 5/2 * (\<bar>t\<bar> * \<bar>t\<bar>) + 1
      else if \<bar>t\<bar> < 2 then - 1/2 * (\<bar>t\<bar> - 1) * ((\<bar>t\<bar> - 2) * (\<bar>t\<bar> - 2)) else 0)"
  by (simp add: kernel_cubic_def Let_def field_simps)

lemma cubic_centre_bound:
  assumes "\<bar>t\<bar> \<le> 1/2" shows "9/16 \<le> kernel_cubic t"
proof -
  define u where "u = \<bar>t\<bar>"
  have u: "0 \<le> u" "u \<le> 1/2" using assms by (simp_all add: u_def)
  have "u * u \<le> u / 2" using mult_left_mono[OF u(2) u(1)] by simp
  then have q: "0 \<le> 7/8 + 7/4 * u - 3/2 * (u * u)" using u by linarith
  have "0 \<le> (1/2 - u) * (7/8 + 7/4 * u - 3/2 * (u * u))"
    using u q by simp
  moreover have "3/2 * (u * u * u) - 5/2 * (u * u) + 1 - 9/16
      = (1/2 - u) * (7/8 + 7/4 * u - 3/2 * (u * u))"
    by (simp add: field_simps)
  ultimately show ?thesis using u by (simp add: kernel_cubic_abs u_def[symmetric])
qed

lemma cubic_inner_nonneg:
  assumes "\<bar>t\<bar> < 1" shows "0 \<le> kernel_cubic t"
proof -
  define u where "u = \<bar>t\<bar>"
  have u: "0 \<le> u" "u < 1" using assms by (simp_all add: u_def)
  have "u * u \<le> u" using mult_left_mono[of u 1 u] u by simp
  then have q: "0 \<le> 1 + u - 3/2 * (u * u)" using u by linarith
  have "0 \<le> (1 - u) * (1 + u - 3/2 * (u * u))" using u q by simp
  moreover have "3/2 * (u * u * u) - 5/2 * (u * u) + 1 = (1 - u) * (1 + u - 3/2 * (u * u))"
    by (simp add: field_simps)
  ultimately show ?thesis using u by (simp add: kernel_cubic_abs u_def[symmetric])
qed

lemma cubic_lobe_bound:
  assumes "1 \<le> \<bar>t\<bar>" shows "- 2/27 \<le> kernel_cubic t"
proof (cases "\<bar>t\<bar> < 2")
  case True
  define v where "v = \<bar>t\<bar> - 1"
  have v: "0 \<le> v" "v < 1" using assms True by (simp_all add: v_def)
  have "0 \<le> (v - 1/3) * (v - 1/3)" by simp
  then have "0 \<le> (v - 1/3) * (v - 1/3) * (4/3 - v)" using v by simp
  moreover have "- 1/2 * v * ((v - 1) * (v - 1)) + 2/27 = (v - 1/3) * (v - 1/3) * (4/3 - v) / 2"
    by (simp add: field_simps)
  moreover have "kernel_cubic t = - 1/2 * v * ((v - 1) * (v - 1))"
    using assms True by (simp add: kernel_cubic_abs v_def)
  ultimately show ?thesis by linarith
next
  case False
  then show ?thesis by (simp add: kernel_cubic_def Let_def)
qed

lemma cubic_lower:
  "(if \<bar>t\<bar> \<le> 1/2 then 9/16 else 0) - (if 1 \<le> \<bar>t\<bar> \<and> \<bar>t\<bar> \<le> 2 then 2/27 else 0) \<le> kernel_cubic t"
  using cubic_centre_bound[of t] cubic_inner_nonneg[of t] cubic_lobe_bound[of t]
  by (auto simp: kernel_cubic_def Let_def)

lemma cubic_progression_pos:
  fixes s t0 :: real and T :: nat
  assumes s: "0 < s" "s \<le> 1" and t0: "- 2 \<le> t0" "t0 < s - 2" and T: "4 \<le> real T * s"
  shows "0 < (\<Sum>r<T. kernel_cubic (t0 + real r * s))"
proof -
  define A where "A = {r::nat. (- 1/2 - t0) / s \<le> real r \<and> real r \<le> (1/2 - t0) / s}"
  define C1 where "C1 = {r::nat. (1 - t0) / s \<le> real r \<and> real r \<le> (2 - t0) / s}"
  define C2 where "C2 = {r::nat. (- 2 - t0) / s \<le> real r \<and> real r \<le> (- 1 - t0) / s}"
  define M where "M = 1 / s"
  have M: "1 \<le> M" using s by (simp add: M_def)
  have inA: "r \<in> A \<longleftrightarrow> \<bar>t0 + real r * s\<bar> \<le> 1/2" for r
    unfolding A_def mem_Collect_eq progression_between[OF s(1)] by linarith
  have inC: "1 \<le> \<bar>t0 + real r * s\<bar> \<and> \<bar>t0 + real r * s\<bar> \<le> 2 \<longleftrightarrow> r \<in> C1 \<union> C2" for r
    unfolding C1_def C2_def Un_iff mem_Collect_eq progression_between[OF s(1)] by linarith
  have AT: "{r. r < T \<and> r \<in> A} = A"
  proof -
    have "r < T" if "r \<in> A" for r
    proof -
      have "\<bar>t0 + real r * s\<bar> \<le> 1/2" using that by (simp only: inA)
      then have "real r * s \<le> 5/2" using t0 by linarith
      then have "real r * s < real T * s" using T by linarith
      then show ?thesis using s by simp
    qed
    then show ?thesis by auto
  qed
  have cardA: "1 \<le> card A" "M - 1 < real (card A)"
  proof -
    have d: "(1/2 - t0) / s - (- 1/2 - t0) / s = M"
      by (simp add: M_def diff_divide_distrib[symmetric])
    have a0: "0 \<le> (- 1/2 - t0) / s" using s t0 by simp
    show "1 \<le> card A" "M - 1 < real (card A)"
      using card_nat_between_ge[OF a0, of "(1/2 - t0) / s"] d M by (simp_all add: A_def)
  qed
  have cardC: "real (card {r \<in> {..<T}. r \<in> C1 \<union> C2}) \<le> 2 * M + 2"
  proof -
    have f: "finite (C1 \<union> C2)" by (simp add: C1_def C2_def finite_nat_between)
    have "card {r \<in> {..<T}. r \<in> C1 \<union> C2} \<le> card (C1 \<union> C2)"
      using f by (intro card_mono) auto
    also have "\<dots> \<le> card C1 + card C2" by (rule card_Un_le)
    finally have le: "real (card {r \<in> {..<T}. r \<in> C1 \<union> C2}) \<le> real (card C1) + real (card C2)"
      by linarith
    have d1: "(2 - t0) / s - (1 - t0) / s = M" and d2: "(- 1 - t0) / s - (- 2 - t0) / s = M"
      by (simp_all add: M_def diff_divide_distrib[symmetric])
    have "real (card C1) \<le> M + 1" "real (card C2) \<le> M + 1"
      using card_nat_between_le[of "(1 - t0) / s" "(2 - t0) / s"]
        card_nat_between_le[of "(- 2 - t0) / s" "(- 1 - t0) / s"] d1 d2 M
      by (simp_all add: C1_def C2_def)
    with le show ?thesis by linarith
  qed
  have "(\<Sum>r<T. (if r \<in> A then 9/16 else 0) - (if r \<in> C1 \<union> C2 then 2/27 else 0))
        \<le> (\<Sum>r<T. kernel_cubic (t0 + real r * s))"
    unfolding inA inC[symmetric] by (intro sum_mono cubic_lower)
  moreover have "(\<Sum>r<T. (if r \<in> A then 9/16 else 0) - (if r \<in> C1 \<union> C2 then (2/27::real) else 0))
        = 9/16 * real (card A) - 2/27 * real (card {r \<in> {..<T}. r \<in> C1 \<union> C2})"
    by (simp add: sum_subtractf sum_if_card AT)
  moreover have "0 < 9/16 * real (card A) - 2/27 * real (card {r \<in> {..<T}. r \<in> C1 \<union> C2})"
  proof (cases "M \<le> 2")
    case True
    with cardA cardC show ?thesis by linarith
  next
    case False
    with cardA cardC show ?thesis by linarith
  qed
  ultimately show ?thesis by linarith
qed

text \<open>All four kernels interpolate: they are one at the centre and zero at every other
  integer.\<close>

lemma kernel_at_int: "kernel (kernel_info t) (of_int k) = (if k = 0 then 1 else 0)"
proof (cases "k = 0")
  case True
  then show ?thesis by simp
next
  case False
  then have k: "1 \<le> \<bar>k\<bar>" by simp
  then have kr: "1 \<le> \<bar>real_of_int k\<bar>" by linarith
  show ?thesis
  proof (cases t)
    case Box
    with kr False show ?thesis by (simp add: kernel_box_def)
  next
    case Linear
    with kr False show ?thesis by (simp add: kernel_linear_def)
  next
    case Cubic
    show ?thesis
    proof (cases "\<bar>k\<bar> = 1")
      case True
      then have "\<bar>real_of_int k\<bar> = 1" by linarith
      with Cubic False show ?thesis by (simp add: kernel_cubic_def)
    next
      case k1: False
      with k have "2 \<le> \<bar>real_of_int k\<bar>" by linarith
      with Cubic False show ?thesis by (simp add: kernel_cubic_def)
    qed
  next
    case Lanczos
    with False show ?thesis by (simp add: kernel_lanczos_def sinc_def)
  qed
qed

subsection \<open>The Lanczos kernel against the spec\<close>

lemma kernel_lanczos_pi:
  assumes "x \<noteq> 0"
  shows "kernel_lanczos x = pi\<^sup>2 * lanczos_spec x"
proof (cases "\<bar>x\<bar> < 3")
  case True
  then have "\<not> (x > 3 \<or> x < -3)" by linarith
  with True assms show ?thesis
    by (simp add: kernel_lanczos_def lanczos_spec_def sinc_def sinc_spec_def power2_eq_square
        field_simps)
next
  case False
  then show ?thesis
    using assms kernel_lanczos_vanishes[of x] by (simp add: lanczos_spec_def)
qed

lemma sinc_spec_pos: "0 < x \<Longrightarrow> x < 1 \<Longrightarrow> 0 < sinc_spec x"
  unfolding sinc_spec_def by (intro divide_pos_pos sin_gt_zero) simp_all

text \<open>C10: the code's \<open>sinc(x) = sin(float(M_PI) * x) / x\<close> omits the division by
  \<open>pi\<close>, so away from zero \<open>kernel_lanczos\<close> is \<open>pi\<^sup>2\<close> times the spec's Lanczos
  kernel, while at zero the \<open>select\<close> sets it to 1 as the spec does. Normalisation
  cancels the common factor only when no tap lies exactly on the centre: when one does,
  that tap is under-weighted by \<open>pi\<^sup>2\<close> relative to its neighbours.\<close>

theorem kernel_lanczos_vs_spec:
  "kernel_lanczos x = (if x = 0 then 1 else pi\<^sup>2 * lanczos_spec x)"
  by (simp add: kernel_lanczos_pi) (simp add: kernel_lanczos_def)

subsection \<open>The generator parameter\<close>

text \<open>C11: a name outside the table is a configuration error, and only such a name is;
  an unset parameter takes the default, the cubic kernel.\<close>

theorem set_interpolation_type_error:
  "((\<exists>e. set_interpolation_type (Some v) = Inl e)
      \<longleftrightarrow> v \<notin> {''box'', ''linear'', ''cubic'', ''lanczos''})
   \<and> set_interpolation_type None = Inr Cubic"
  by (auto simp: set_interpolation_type_def interpolation_type_names_def
      interpolation_type_default_def)

text \<open>C24: the table \<open>kernel_info[]\<close> is well formed for the enum. Indexing it with any
  \<open>InterpolationType\<close> is in bounds, the names are distinct, and every entry is an
  interpolation kernel of its declared width: a positive tap count, the value 1 at the
  centre, and zero beyond half the tap count, so that \<open>taps\<close> samples at unit spacing
  cover its support.\<close>

theorem kernel_info_well_formed:
  "interp_index t < length kernel_info_table
   \<and> distinct (map name kernel_info_table)
   \<and> 0 < taps (kernel_info t) \<and> kernel (kernel_info t) 0 = 1
   \<and> (\<forall>x. of_int (taps (kernel_info t)) / 2 < \<bar>x\<bar> \<longrightarrow> kernel (kernel_info t) x = 0)"
proof (intro conjI allI impI)
  show "interp_index t < length kernel_info_table"
    by (cases t) (simp_all add: kernel_info_table_def)
  show "distinct (map name kernel_info_table)" by (simp add: kernel_info_table_def)
  show "0 < taps (kernel_info t)" by (rule taps_pos)
  show "kernel (kernel_info t) 0 = 1" by (rule kernel_at_zero)
  fix x :: real
  assume x: "of_int (taps (kernel_info t)) / 2 < \<bar>x\<bar>"
  show "kernel (kernel_info t) x = 0"
  proof (cases "t = Box")
    case True
    with x show ?thesis by (simp add: kernel_box_vanishes)
  next
    case False
    with x show ?thesis by (intro kernel_vanishes) simp_all
  qed
qed

theorem kernel_info_well_formed_witness:
  "interp_index Cubic < length kernel_info_table
   \<and> 0 < taps (kernel_info Cubic)
   \<and> of_int (taps (kernel_info Cubic)) / 2 < \<bar>5/2 :: real\<bar>
   \<and> kernel (kernel_info Cubic) (5/2) = 0"
  using kernel_info_well_formed[of Cubic] by simp

end
