(* ===== verification/Weights.thy ===== *)
theory Weights
  imports Kernels
begin

text \<open>
  The kernel weight generator, \<open>Resize::generate()\<close> lines 87--116 of
  \<open>src/apps/resize/resize_generator.cpp\<close>. The generator's parameters and scalar
  input form the record \<open>Resize\<close>. The \<open>Func\<close>s \<open>unnormalized_kernel_x\<close> and
  \<open>unnormalized_kernel_y\<close>, \<open>kernel_sum_x\<close> and \<open>kernel_sum_y\<close>, \<open>kernel_x\<close> and
  \<open>kernel_y\<close> are, pairwise, the same function of their own coordinate (with
  \<open>sourcex\<close>/\<open>sourcey\<close> and \<open>beginx\<close>/\<open>beginy\<close> the same expression of it), so each
  pair is one definition here, applied to \<open>x\<close> for the x axis and to \<open>y\<close> for the y
  axis. \<open>RDom r(0, kernel_taps)\<close> is the sum over \<open>r < nat (kernel_taps g)\<close>.
  The lemmas show that the normalised weights add up to one, that the unnormalised sum
  is exactly one when upsampling with the box, linear or cubic kernel, that it is
  positive when downsampling with the box or linear kernel, that the tap window holds
  every source pixel inside the kernel's support, and how the window moves with the
  output coordinate.
\<close>

record Resize =
  interpolation_type :: InterpolationType
  upsample :: bool
  scale_factor :: real

text \<open>\<open>kernel_info[interpolation_type]\<close> of the generator.\<close>

definition info :: "Resize \<Rightarrow> KernelInfo" where
  "info g = kernel_info (interpolation_type g)"

definition kernel_scaling :: "Resize \<Rightarrow> real" where
  "kernel_scaling g = (if upsample g then 1 else scale_factor g)"

definition kernel_radius :: "Resize \<Rightarrow> real" where
  "kernel_radius g = 1/2 * of_int (taps (info g)) / kernel_scaling g"

definition kernel_taps :: "Resize \<Rightarrow> int" where
  "kernel_taps g = \<lceil>of_int (taps (info g)) / kernel_scaling g\<rceil>"

text \<open>\<open>sourcex\<close> and \<open>sourcey\<close>: the centre of output pixel \<open>x\<close> in source coordinates.\<close>

definition source_coord :: "Resize \<Rightarrow> coord \<Rightarrow> real" where
  "source_coord g x = (of_int x + 1/2) / scale_factor g - 1/2"

text \<open>\<open>beginx\<close> and \<open>beginy\<close>: \<open>cast<int>(ceil(source - kernel_radius))\<close>.\<close>

definition begin_coord :: "Resize \<Rightarrow> coord \<Rightarrow> coord" where
  "begin_coord g x = \<lceil>source_coord g x - kernel_radius g\<rceil>"

definition unnormalized_kernel :: "Resize \<Rightarrow> coord \<Rightarrow> coord \<Rightarrow> real" where
  "unnormalized_kernel g x k =
     kernel (info g) ((of_int k + of_int (begin_coord g x) - source_coord g x) * kernel_scaling g)"

definition kernel_sum :: "Resize \<Rightarrow> coord \<Rightarrow> real" where
  "kernel_sum g x = (\<Sum>r<nat (kernel_taps g). unnormalized_kernel g x (int r))"

definition kernel_xy :: "Resize \<Rightarrow> coord \<Rightarrow> coord \<Rightarrow> real" where
  "kernel_xy g x k = unnormalized_kernel g x k / kernel_sum g x"

text \<open>The Lanczos kernel at a downsampling factor of three.\<close>

definition lanczos_down3 :: Resize where
  "lanczos_down3 = \<lparr>interpolation_type = Lanczos, upsample = False, scale_factor = 1/3\<rparr>"

lemmas window_defs = info_def kernel_scaling_def kernel_radius_def kernel_taps_def
  source_coord_def begin_coord_def unnormalized_kernel_def kernel_sum_def kernel_xy_def

subsection \<open>The tap window\<close>

lemma kernel_scaling_pos: "0 < scale_factor g \<Longrightarrow> 0 < kernel_scaling g"
  by (simp add: kernel_scaling_def)

lemma upsample_window [simp]:
  assumes "upsample g"
  shows "kernel_scaling g = 1" and "kernel_radius g = of_int (taps (info g)) / 2"
    and "kernel_taps g = taps (info g)"
  using assms by (simp_all add: kernel_scaling_def kernel_radius_def kernel_taps_def)

lemma downsample_scaling [simp]: "\<not> upsample g \<Longrightarrow> kernel_scaling g = scale_factor g"
  by (simp add: kernel_scaling_def)

lemma taps_info_pos: "0 < taps (info g)"
  by (simp add: info_def taps_pos)

lemma radius_times_scaling:
  "kernel_scaling g \<noteq> 0 \<Longrightarrow> kernel_radius g * kernel_scaling g = of_int (taps (info g)) / 2"
  by (simp add: kernel_radius_def)

lemma kernel_taps_ge: "of_int (taps (info g)) / kernel_scaling g \<le> of_int (kernel_taps g)"
  by (simp add: kernel_taps_def)

text \<open>When downsampling the window widens: it has at least the kernel's native taps.\<close>

lemma kernel_taps_downsample:
  assumes "\<not> upsample g" and "0 < scale_factor g" and "scale_factor g \<le> 1"
  shows "taps (info g) \<le> kernel_taps g"
proof -
  have "of_int (taps (info g)) \<le> (of_int (taps (info g)) :: real) / scale_factor g"
    using assms taps_info_pos[of g] by (simp add: le_divide_eq)
  also have "\<dots> \<le> of_int (kernel_taps g)"
    using kernel_taps_ge[of g] assms by simp
  finally show ?thesis by simp
qed

text \<open>The first tap lies at most one source pixel past \<open>source - kernel_radius\<close>.\<close>

lemma begin_offset_bounds:
  "- kernel_radius g \<le> of_int (begin_coord g x) - source_coord g x"
  "of_int (begin_coord g x) - source_coord g x < 1 - kernel_radius g"
  unfolding begin_coord_def by linarith+

lemma kernel_sum_unfold:
  "kernel_sum g x = (\<Sum>r<nat (kernel_taps g).
     kernel (info g) ((of_nat r + (of_int (begin_coord g x) - source_coord g x)) * kernel_scaling g))"
  by (simp add: kernel_sum_def unnormalized_kernel_def add_diff_eq)

text \<open>Every source pixel strictly inside the scaled kernel's support is a tap of the
  window \<open>[beginx, beginx + kernel_taps)\<close>: the window loses no non-zero weight of the
  linear, cubic and Lanczos kernels.\<close>

lemma window_complete:
  assumes "0 < scale_factor g"
    and "\<bar>(of_int i - source_coord g x) * kernel_scaling g\<bar> < of_int (taps (info g)) / 2"
  shows "begin_coord g x \<le> i \<and> i < begin_coord g x + kernel_taps g"
proof -
  have ks: "0 < kernel_scaling g" using assms(1) by (rule kernel_scaling_pos)
  have r: "kernel_radius g = of_int (taps (info g)) / 2 / kernel_scaling g"
    by (simp add: kernel_radius_def)
  have "\<bar>of_int i - source_coord g x\<bar> * kernel_scaling g < of_int (taps (info g)) / 2"
    using assms(2) ks by (simp add: abs_mult)
  then have near: "\<bar>of_int i - source_coord g x\<bar> < kernel_radius g"
    using ks by (simp add: r pos_less_divide_eq)
  have t: "2 * kernel_radius g \<le> of_int (kernel_taps g)"
    using kernel_taps_ge[of g] by (simp add: r)
  have "begin_coord g x \<le> i"
    using near unfolding begin_coord_def by (simp add: ceiling_le_iff)
  moreover have "source_coord g x - kernel_radius g \<le> of_int (begin_coord g x)"
    unfolding begin_coord_def by (rule le_of_int_ceiling)
  then have "(of_int i :: real) < of_int (begin_coord g x) + of_int (kernel_taps g)"
    using near t by (simp add: abs_less_iff)
  then have "i < begin_coord g x + kernel_taps g" by linarith
  ultimately show ?thesis by simp
qed

lemma source_coord_mono:
  "0 < scale_factor g \<Longrightarrow> x \<le> x' \<Longrightarrow> source_coord g x \<le> source_coord g x'"
  by (simp add: source_coord_def divide_right_mono)

subsection \<open>Normalisation\<close>

text \<open>C1: the weights \<open>kernel_x(x, k)\<close> of one output coordinate, over the reduction
  domain \<open>RDom r(0, kernel_taps)\<close>, add up to exactly one whenever their unnormalised
  sum \<open>kernel_sum_x(x)\<close> is not zero.\<close>

theorem kernel_xy_sum_one:
  assumes "kernel_sum g x \<noteq> 0"
  shows "(\<Sum>r<nat (kernel_taps g). kernel_xy g x (int r)) = 1"
  using assms unfolding kernel_xy_def kernel_sum_def by (rule sum_divide_total)

text \<open>When upsampling with the box, linear or cubic kernel, the unnormalised weights of
  every output coordinate already add up to exactly one, whatever the scale factor: the
  window has the kernel's native taps at unit spacing, and these kernels are partitions
  of unity.\<close>

lemma kernel_sum_upsample_exact:
  assumes "upsample g" and "interpolation_type g \<noteq> Lanczos"
  shows "kernel_sum g x = 1"
proof -
  define d where "d = of_int (begin_coord g x) - source_coord g x"
  note b = begin_offset_bounds[of g x, folded d_def]
  show ?thesis
  proof (cases "interpolation_type g")
    case Box
    with assms b show ?thesis
      by (simp add: kernel_sum_unfold info_def d_def[symmetric] kernel_box_def)
  next
    case Linear
    with assms b kernel_linear_unity[of d] show ?thesis
      by (simp add: kernel_sum_unfold info_def d_def[symmetric] eval_nat_numeral add.commute)
  next
    case Cubic
    with assms b kernel_cubic_unity[of d] show ?thesis
      by (simp add: kernel_sum_unfold info_def d_def[symmetric] eval_nat_numeral
          add.commute add.left_commute)
  next
    case Lanczos
    with assms show ?thesis by simp
  qed
qed

theorem kernel_xy_sum_one_witness:
  "kernel_sum \<lparr>interpolation_type = Box, upsample = True, scale_factor = 2\<rparr> 0 \<noteq> 0
   \<and> (\<Sum>r<nat (kernel_taps \<lparr>interpolation_type = Box, upsample = True, scale_factor = 2\<rparr>).
        kernel_xy \<lparr>interpolation_type = Box, upsample = True, scale_factor = 2\<rparr> 0 (int r)) = 1"
proof -
  have h: "kernel_sum \<lparr>interpolation_type = Box, upsample = True, scale_factor = 2\<rparr> 0 \<noteq> 0"
    by (simp add: window_defs kernel_box_def)
  show ?thesis using h kernel_xy_sum_one[OF h] by simp
qed

text \<open>C2: when upsampling with the box, linear or cubic kernel, normalisation is the
  identity: \<open>kernel_x(x, k)\<close> equals \<open>unnormalized_kernel_x(x, k)\<close> for every output
  coordinate and tap, whatever the scale factor.\<close>

theorem kernel_xy_upsample_unnormalized:
  assumes "upsample g" and "interpolation_type g \<noteq> Lanczos"
  shows "kernel_xy g x k = unnormalized_kernel g x k"
  using kernel_sum_upsample_exact[OF assms, of x] by (simp add: kernel_xy_def)

theorem kernel_xy_upsample_unnormalized_witness:
  "upsample \<lparr>interpolation_type = Cubic, upsample = True, scale_factor = (3/2::real)\<rparr>
   \<and> interpolation_type \<lparr>interpolation_type = Cubic, upsample = True, scale_factor = (3/2::real)\<rparr> \<noteq> Lanczos
   \<and> kernel_xy \<lparr>interpolation_type = Cubic, upsample = True, scale_factor = 3/2\<rparr> 5 1
     = unnormalized_kernel \<lparr>interpolation_type = Cubic, upsample = True, scale_factor = 3/2\<rparr> 5 1"
  using kernel_xy_upsample_unnormalized[of "\<lparr>interpolation_type = Cubic, upsample = True, scale_factor = 3/2\<rparr>" 5 1]
  by simp

subsection \<open>Positive sums when downsampling\<close>

text \<open>When downsampling (\<open>upsample\<close> false, \<open>0 < scale_factor \<le> 1\<close>) with the box or
  linear kernel, the unnormalised sum of every output coordinate is positive, so the
  division in \<open>kernel_x\<close> and \<open>kernel_y\<close> is well defined.\<close>

lemma kernel_sum_pos_downsample:
  assumes "\<not> upsample g" and "0 < scale_factor g" and "scale_factor g \<le> 1"
    and "interpolation_type g = Box \<or> interpolation_type g = Linear"
  shows "0 < kernel_sum g x"
proof -
  define s where "s = scale_factor g"
  define d where "d = of_int (begin_coord g x) - source_coord g x"
  have s: "0 < s" "s \<le> 1" using assms by (simp_all add: s_def)
  have rs: "kernel_radius g * s = of_int (taps (info g)) / 2"
    using radius_times_scaling[of g] assms by (simp add: s_def)
  have lo: "- kernel_radius g \<le> d" and hi: "d < 1 - kernel_radius g"
    using begin_offset_bounds[of g x] by (simp_all add: d_def)
  have lo': "- (of_int (taps (info g)) / 2) \<le> d * s"
    using mult_right_mono[OF lo, of s] s rs by simp
  have hi': "d * s < s - of_int (taps (info g)) / 2"
    using mult_strict_right_mono[OF hi, of s] s rs by (simp add: algebra_simps)
  have tN: "taps (info g) \<le> kernel_taps g"
    using kernel_taps_downsample assms by blast
  let ?k = "kernel (info g)"
  have sum_eq: "kernel_sum g x = (\<Sum>r<nat (kernel_taps g). ?k ((of_nat r + d) * s))"
    using assms(1) by (simp add: kernel_sum_unfold d_def s_def)
  from assms(4) show ?thesis
  proof
    assume box: "interpolation_type g = Box"
    have "0 < (\<Sum>r<nat (kernel_taps g). ?k ((of_nat r + d) * s))"
    proof (rule sum_nonneg_pos)
      show "0 \<le> ?k ((of_nat r + d) * s)" for r
        using box by (simp add: info_def kernel_box_nonneg)
      show "0 < nat (kernel_taps g)" using tN box by (simp add: info_def)
      show "0 < ?k ((of_nat 0 + d) * s)"
        using box lo' hi' s by (simp add: info_def kernel_box_one abs_le_iff)
    qed
    with sum_eq show ?thesis by simp
  next
    assume lin: "interpolation_type g = Linear"
    have nonneg: "0 \<le> ?k ((of_nat r + d) * s)" for r
      using lin by (simp add: info_def kernel_linear_nonneg)
    show ?thesis
    proof (cases "d * s = -1")
      case False
      have "0 < (\<Sum>r<nat (kernel_taps g). ?k ((of_nat r + d) * s))"
      proof (rule sum_nonneg_pos)
        show "0 < nat (kernel_taps g)" using tN lin by (simp add: info_def)
        show "0 < ?k ((of_nat 0 + d) * s)"
          using lin lo' hi' s False by (simp add: info_def kernel_linear_pos abs_less_iff)
      qed (rule nonneg)
      with sum_eq show ?thesis by simp
    next
      case True
      have "0 < (\<Sum>r<nat (kernel_taps g). ?k ((of_nat r + d) * s))"
      proof (rule sum_nonneg_pos)
        show "1 < nat (kernel_taps g)" using tN lin by (simp add: info_def)
        have "(of_nat 1 + d) * s = s - 1" using True by (simp add: algebra_simps)
        then show "0 < ?k ((of_nat 1 + d) * s)"
          using lin s by (simp add: info_def kernel_linear_pos)
      qed (rule nonneg)
      with sum_eq show ?thesis by simp
    qed
  qed
qed

subsection \<open>A misconfigured direction\<close>

text \<open>C9: the code does not check that \<open>upsample\<close> matches the scale factor. With
  \<open>upsample\<close> false and a scale factor of three or more, the linear kernel is
  narrowed to one tap that falls outside its support at output coordinate 0: the kernel
  sum is zero, and \<open>kernel_x = unnormalized_kernel_x / kernel_sum_x\<close> divides by zero
  (NaN in float; the model's real division gives 0).\<close>

theorem kernel_sum_zero_misconfigured:
  assumes "\<not> upsample g" and "interpolation_type g = Linear" and "3 \<le> scale_factor g"
  shows "kernel_sum g 0 = 0"
proof -
  define s where "s = scale_factor g"
  have s: "3 \<le> s" "0 < s" using assms(3) by (simp_all add: s_def)
  have N: "taps (info g) = 2" using assms(2) by (simp add: info_def)
  have "0 < 2 / s" and "2 / s \<le> 1" using s by simp_all
  then have T: "kernel_taps g = 1"
    unfolding kernel_taps_def using assms(1) N
    by (intro ceiling_unique) (simp_all add: s_def[symmetric])
  have R: "kernel_radius g = 1 / s"
    using assms(1) N by (simp add: kernel_radius_def s_def)
  have S: "source_coord g 0 = 1 / (2 * s) - 1/2"
    by (simp add: source_coord_def s_def)
  have e: "1 / (2 * s) - 1/2 - 1 / s = - (1 / (2 * s)) - 1/2" by simp
  have h1: "0 < 1 / (2 * s)" and h2: "1 / (2 * s) < 1/2" using s by simp_all
  have B: "begin_coord g 0 = 0"
    unfolding begin_coord_def R S e
  proof (rule ceiling_unique)
    show "real_of_int 0 - 1 < - (1 / (2 * s)) - 1/2" using h2 by linarith
    show "- (1 / (2 * s)) - 1/2 \<le> real_of_int 0" using h1 by linarith
  qed
  have "(0 - (1 / (2 * s) - 1/2)) * s = (s - 1) / 2"
    using s by (simp add: field_simps)
  then have "1 \<le> \<bar>(0 - (1 / (2 * s) - 1/2)) * s\<bar>"
    using s by simp
  then show ?thesis
    using assms(1,2) T B S
    by (simp add: kernel_sum_def unnormalized_kernel_def info_def kernel_linear_def s_def)
qed

theorem kernel_sum_zero_misconfigured_witness:
  "\<not> upsample \<lparr>interpolation_type = Linear, upsample = False, scale_factor = (4::real)\<rparr>
   \<and> interpolation_type \<lparr>interpolation_type = Linear, upsample = False, scale_factor = (4::real)\<rparr> = Linear
   \<and> 3 \<le> scale_factor \<lparr>interpolation_type = Linear, upsample = False, scale_factor = (4::real)\<rparr>
   \<and> kernel_sum \<lparr>interpolation_type = Linear, upsample = False, scale_factor = 4\<rparr> 0 = 0"
  using kernel_sum_zero_misconfigured[of "\<lparr>interpolation_type = Linear, upsample = False, scale_factor = 4\<rparr>"]
  by simp

subsection \<open>Scale factor one\<close>

text \<open>At scale factor one the window is the kernel's native taps centred on the output
  coordinate itself.\<close>

lemma unit_scale_window:
  assumes "scale_factor g = 1"
  shows "kernel_scaling g = 1" and "source_coord g x = of_int x"
    and "kernel_taps g = taps (info g)"
    and "begin_coord g x = x - taps (info g) div 2"
proof -
  show ks: "kernel_scaling g = 1" using assms by (simp add: kernel_scaling_def)
  show sc: "source_coord g x = of_int x" using assms by (simp add: source_coord_def)
  show "kernel_taps g = taps (info g)" using ks by (simp add: kernel_taps_def)
  have "begin_coord g x = \<lceil>- (of_int (taps (info g)) / 2) + (of_int x :: real)\<rceil>"
    using ks sc by (simp add: begin_coord_def kernel_radius_def)
  also have "\<dots> = x - \<lfloor>of_int (taps (info g)) / (of_int 2 :: real)\<rfloor>"
    by (simp only: ceiling_add_of_int ceiling_minus) simp
  also have "\<dots> = x - taps (info g) div 2"
    by (simp only: floor_divide_of_int_eq)
  finally show "begin_coord g x = x - taps (info g) div 2" .
qed

lemma unit_scale_unnormalized:
  assumes "scale_factor g = 1"
  shows "unnormalized_kernel g x k = (if k + begin_coord g x = x then 1 else 0)"
proof -
  have "unnormalized_kernel g x k = kernel (info g) (of_int (k + begin_coord g x - x))"
    using unit_scale_window[OF assms] by (simp add: unnormalized_kernel_def)
  then show ?thesis
    using kernel_at_int[of "interpolation_type g" "k + begin_coord g x - x"]
    by (simp add: info_def)
qed

lemma unit_scale_in_window:
  assumes "scale_factor g = 1"
  shows "begin_coord g x \<le> x" and "x < begin_coord g x + int (nat (kernel_taps g))"
  using unit_scale_window(3)[OF assms] unit_scale_window(4)[OF assms, of x] taps_info_pos[of g]
  by simp_all

lemma unit_scale_kernel_sum:
  assumes "scale_factor g = 1"
  shows "kernel_sum g x = 1"
proof -
  have "kernel_sum g x = (\<Sum>r<nat (kernel_taps g).
          if int r + begin_coord g x = x then (\<lambda>_. 1::real) (int r + begin_coord g x) else 0)"
    by (simp add: kernel_sum_def unit_scale_unnormalized[OF assms])
  also have "\<dots> = 1"
    using unit_scale_in_window[OF assms] by (rule sum_window_delta)
  finally show ?thesis .
qed

subsection \<open>Convex weights\<close>

text \<open>With the box or linear kernel, in either well-configured direction, the weights
  of every output coordinate are non-negative and add up to one.\<close>

lemma weights_convex:
  assumes "interpolation_type g = Box \<or> interpolation_type g = Linear"
    and "0 < scale_factor g" and "upsample g \<or> scale_factor g \<le> 1"
  shows "0 \<le> kernel_xy g x k" and "(\<Sum>r<nat (kernel_taps g). kernel_xy g x (int r)) = 1"
proof -
  have pos: "0 < kernel_sum g x"
  proof (cases "upsample g")
    case True
    with assms(1) show ?thesis using kernel_sum_upsample_exact[of g x] by auto
  next
    case False
    with assms show ?thesis by (intro kernel_sum_pos_downsample) auto
  qed
  have "0 \<le> unnormalized_kernel g x k"
    using assms(1) by (auto simp: unnormalized_kernel_def info_def kernel_box_nonneg kernel_linear_nonneg)
  with pos show "0 \<le> kernel_xy g x k" by (simp add: kernel_xy_def)
  show "(\<Sum>r<nat (kernel_taps g). kernel_xy g x (int r)) = 1"
    using pos unfolding kernel_xy_def kernel_sum_def by (intro sum_divide_total) simp
qed

subsection \<open>Positive kernel sums\<close>

lemma kernel_sum_pos_cubic_downsample:
  assumes "\<not> upsample g" and "interpolation_type g = Cubic"
    and "0 < scale_factor g" and "scale_factor g \<le> 1"
  shows "0 < kernel_sum g x"
proof -
  define s where "s = scale_factor g"
  define d where "d = of_int (begin_coord g x) - source_coord g x"
  have s: "0 < s" "s \<le> 1" using assms by (simp_all add: s_def)
  have tp: "taps (info g) = 4" using assms(2) by (simp add: info_def)
  have rs: "kernel_radius g * s = 2"
    using radius_times_scaling[of g] assms tp by (simp add: s_def)
  have lo: "- kernel_radius g \<le> d" and hi: "d < 1 - kernel_radius g"
    using begin_offset_bounds[of g x] by (simp_all add: d_def)
  have lo': "- 2 \<le> d * s"
    using mult_right_mono[OF lo, of s] s rs by simp
  have hi': "d * s < s - 2"
    using mult_strict_right_mono[OF hi, of s] s rs by (simp add: algebra_simps)
  have "4 / s \<le> of_int (kernel_taps g)"
    using kernel_taps_ge[of g] assms tp by (simp add: s_def)
  then have T: "4 \<le> real (nat (kernel_taps g)) * s"
    using s kernel_taps_downsample[OF assms(1,3,4)] tp by (simp add: pos_divide_le_eq)
  have "kernel_sum g x = (\<Sum>r<nat (kernel_taps g). kernel_cubic (d * s + real r * s))"
    using assms(1,2) by (simp add: kernel_sum_unfold d_def s_def info_def algebra_simps)
  also have "0 < \<dots>" using cubic_progression_pos[OF s lo' hi' T] .
  finally show ?thesis .
qed

lemma kernel_sum_pos_config:
  assumes "interpolation_type g \<noteq> Lanczos" and "0 < scale_factor g"
    and "upsample g \<or> scale_factor g \<le> 1"
  shows "0 < kernel_sum g x"
proof (cases "upsample g")
  case True
  then show ?thesis using kernel_sum_upsample_exact[OF True assms(1)] by simp
next
  case False
  then have s1: "scale_factor g \<le> 1" using assms(3) by simp
  show ?thesis
  proof (cases "interpolation_type g = Cubic")
    case True
    show ?thesis using kernel_sum_pos_cubic_downsample[OF False True assms(2) s1] .
  next
    case False
    then have "interpolation_type g = Box \<or> interpolation_type g = Linear"
      using assms(1) by (cases "interpolation_type g") simp_all
    then show ?thesis using kernel_sum_pos_downsample[OF \<open>\<not> upsample g\<close> assms(2) s1] by blast
  qed
qed

text \<open>C20: the kernel sum never vanishes in a well-configured call. For the box,
  linear and cubic kernels, with a positive scale factor and \<open>upsample\<close> set or the
  scale factor at most one, \<open>kernel_sum\<close> is positive at every output coordinate, so
  the divisions of lines 115--116 are never by zero (compare C9, the misconfigured case).\<close>

theorem kernel_sum_pos:
  assumes "interpolation_type g \<noteq> Lanczos" and "0 < scale_factor g"
    and "upsample g \<or> scale_factor g \<le> 1"
  shows "0 < kernel_sum g x"
  using assms by (rule kernel_sum_pos_config)

theorem kernel_sum_pos_witness:
  "interpolation_type \<lparr>interpolation_type = Cubic, upsample = False, scale_factor = 2/5\<rparr> \<noteq> Lanczos
   \<and> 0 < scale_factor \<lparr>interpolation_type = Cubic, upsample = False, scale_factor = 2/5\<rparr>
   \<and> scale_factor \<lparr>interpolation_type = Cubic, upsample = False, scale_factor = (2/5::real)\<rparr> \<le> 1
   \<and> 0 < kernel_sum \<lparr>interpolation_type = Cubic, upsample = False, scale_factor = 2/5\<rparr> 3"
  using kernel_sum_pos[of "\<lparr>interpolation_type = Cubic, upsample = False, scale_factor = 2/5\<rparr>" 3]
  by simp

subsection \<open>The Lanczos centre tap\<close>

text \<open>At a downsampling factor of three the window of output \<open>x\<close> is centred on the
  source pixel \<open>3 x + 1\<close>, which is tap 9 of 18.\<close>

lemma lanczos_down3_window:
  "source_coord lanczos_down3 x = of_int (3 * x + 1)"
  "begin_coord lanczos_down3 x = 3 * x - 8"
  "kernel_taps lanczos_down3 = 18"
  "unnormalized_kernel lanczos_down3 x k = kernel_lanczos ((of_int k - 9) / 3)"
proof -
  show s: "source_coord lanczos_down3 x = of_int (3 * x + 1)"
    by (simp add: source_coord_def lanczos_down3_def field_simps)
  have r: "kernel_radius lanczos_down3 = 9"
    by (simp add: kernel_radius_def kernel_scaling_def info_def lanczos_down3_def)
  show b: "begin_coord lanczos_down3 x = 3 * x - 8"
  proof -
    have "source_coord lanczos_down3 x - kernel_radius lanczos_down3 = of_int (3 * x - 8)"
      by (simp add: s r)
    then show ?thesis unfolding begin_coord_def by (simp only: ceiling_of_int)
  qed
  show "kernel_taps lanczos_down3 = 18"
    by (simp add: kernel_taps_def kernel_scaling_def info_def lanczos_down3_def)
  show "unnormalized_kernel lanczos_down3 x k = kernel_lanczos ((of_int k - 9) / 3)"
    by (simp add: unnormalized_kernel_def b s) (simp add: kernel_scaling_def info_def lanczos_down3_def field_simps)
qed

text \<open>C22: the missing \<open>pi\<close> of \<open>sinc\<close> distorts the Lanczos weights when a tap lies on
  the centre. Downsampling by three, tap 9 of every output coordinate sits exactly on the
  source position; its unnormalised weight is the spec's value 1, while every other tap
  gets \<open>pi\<^sup>2\<close> times the spec's Lanczos weight, and the neighbouring tap's spec weight
  is positive. After normalisation the centre tap carries \<open>pi\<^sup>2\<close> (about 9.87) times
  less weight relative to its neighbours than the Lanczos filter prescribes.\<close>

theorem lanczos_centre_underweighted:
  "of_int (9 + begin_coord lanczos_down3 x) = source_coord lanczos_down3 x
   \<and> unnormalized_kernel lanczos_down3 x k
       = (if k = 9 then lanczos_spec 0 else pi\<^sup>2 * lanczos_spec ((of_int k - 9) / 3))
   \<and> 0 < lanczos_spec (1/3)"
proof (intro conjI)
  show "of_int (9 + begin_coord lanczos_down3 x) = source_coord lanczos_down3 x"
    by (simp add: lanczos_down3_window)
  show "unnormalized_kernel lanczos_down3 x k
       = (if k = 9 then lanczos_spec 0 else pi\<^sup>2 * lanczos_spec ((of_int k - 9) / 3))"
    by (simp add: lanczos_down3_window kernel_lanczos_pi) (simp add: kernel_lanczos_def lanczos_spec_def)
  show "0 < lanczos_spec (1/3)"
    using sinc_spec_pos[of "1/3"] sinc_spec_pos[of "1/9"] by (simp add: lanczos_spec_def)
qed

end
