(* ===== verification/Boundary.thy ===== *)
theory Boundary
  imports Resize_Prelude
begin

text \<open>
  The boundary handler: the generator's \<open>Input<Buffer<float>> input{"input", 3}\<close>
  (line 68 of \<open>src/apps/resize/resize_generator.cpp\<close>) and the \<open>Func clamped\<close> of lines
  83--85, \<open>BoundaryConditions::repeat_edge(input, {{dim(0).min, dim(0).extent},
  {dim(1).min, dim(1).extent}})\<close>. A Halide buffer is its three dimensions (a min and an
  extent each) and its samples; the samples are a total function here, of which only
  the part inside the dimensions is meaningful. \<open>repeat_edge\<close> belongs to the Halide
  library, not to this repository: it is modelled from the spec (section 4.2) and from
  Halide's documented behaviour, \<open>clamp(x, min, min + extent - 1)\<close> on each bounded
  dimension, the channel dimension left alone, written as the coordinate map
  \<open>repeat_edge_at\<close>; \<open>clamped_at\<close> is its call on line 84 and \<open>clamped\<close> reads the
  input there. The lemmas show that \<open>clamped\<close> reads the nearest pixel inside the
  buffer and returns the input unchanged inside it.
\<close>

record Dim =
  dmin :: coord
  extent :: coord

record Buffer =
  dim0 :: Dim
  dim1 :: Dim
  dim2 :: Dim
  data :: func3

definition dmax :: "Dim \<Rightarrow> coord" where
  "dmax d = dmin d + extent d - 1"

definition in_dim :: "Dim \<Rightarrow> coord \<Rightarrow> bool" where
  "in_dim d i \<longleftrightarrow> dmin d \<le> i \<and> i < dmin d + extent d"

definition in_buffer :: "Buffer \<Rightarrow> coord \<Rightarrow> coord \<Rightarrow> coord \<Rightarrow> bool" where
  "in_buffer b x y c \<longleftrightarrow> in_dim (dim0 b) x \<and> in_dim (dim1 b) y \<and> in_dim (dim2 b) c"

text \<open>\<open>BoundaryConditions::repeat_edge(f, {{min0, extent0}, {min1, extent1}})\<close> reads
  \<open>f\<close> at the coordinates clamped into each bounded dimension, the channel unchanged:
  \<open>repeat_edge_at\<close> is that coordinate map.\<close>

definition repeat_edge_at :: "coord \<times> coord \<Rightarrow> coord \<times> coord \<Rightarrow> coord \<Rightarrow> coord \<Rightarrow> coord \<Rightarrow> coord \<times> coord \<times> coord" where
  "repeat_edge_at bx by' x y c =
     (clamp x (fst bx) (fst bx + snd bx - 1), clamp y (fst by') (fst by' + snd by' - 1), c)"

text \<open>The input pixel \<open>clamped(x, y, c)\<close> reads (lines 83--85), and \<open>clamped\<close> itself.\<close>

definition clamped_at :: "Buffer \<Rightarrow> coord \<Rightarrow> coord \<Rightarrow> coord \<Rightarrow> coord \<times> coord \<times> coord" where
  "clamped_at input =
     repeat_edge_at (dmin (dim0 input), extent (dim0 input)) (dmin (dim1 input), extent (dim1 input))"

definition clamped :: "Buffer \<Rightarrow> func3" where
  "clamped input = (\<lambda>x y c. case clamped_at input x y c of (x', y', c') \<Rightarrow> data input x' y' c')"

text \<open>A 4 by 3 single-channel buffer at x in [0, 4), y in [2, 5), holding
  \<open>10 x + y\<close>, for the concrete instances below.\<close>

definition test_buffer :: Buffer where
  "test_buffer = \<lparr>dim0 = \<lparr>dmin = 0, extent = 4\<rparr>, dim1 = \<lparr>dmin = 2, extent = 3\<rparr>,
     dim2 = \<lparr>dmin = 0, extent = 1\<rparr>, data = (\<lambda>x y c. of_int (10 * x + y))\<rparr>"

text \<open>The 2 by 2 single-channel input \<open>[[0, 1], [1, 0]]\<close> of the spec's scenario.\<close>

definition checker_buffer :: Buffer where
  "checker_buffer = \<lparr>dim0 = \<lparr>dmin = 0, extent = 2\<rparr>, dim1 = \<lparr>dmin = 0, extent = 2\<rparr>,
     dim2 = \<lparr>dmin = 0, extent = 1\<rparr>, data = (\<lambda>x y c. of_int ((x + y) mod 2))\<rparr>"

text \<open>A one-row 4-pixel step from 0 to 1: \<open>[0, 0, 1, 1]\<close>.\<close>

definition step_buffer :: Buffer where
  "step_buffer = \<lparr>dim0 = \<lparr>dmin = 0, extent = 4\<rparr>, dim1 = \<lparr>dmin = 0, extent = 1\<rparr>,
     dim2 = \<lparr>dmin = 0, extent = 1\<rparr>, data = (\<lambda>x y c. if 2 \<le> x then 1 else 0)\<rparr>"

text \<open>The same one-row step from level \<open>a\<close> to level \<open>b\<close>: \<open>[a, a, b, b]\<close>.\<close>

definition step_between :: "real \<Rightarrow> real \<Rightarrow> Buffer" where
  "step_between a b = step_buffer\<lparr>data := (\<lambda>x y c. if 2 \<le> x then b else a)\<rparr>"

lemma clamped_at_eq:
  "clamped_at input x y c =
     (clamp x (dmin (dim0 input)) (dmax (dim0 input)), clamp y (dmin (dim1 input)) (dmax (dim1 input)), c)"
  by (simp add: clamped_at_def repeat_edge_at_def dmax_def)

lemma clamped_eq:
  "clamped b x y c = data b (clamp x (dmin (dim0 b)) (dmax (dim0 b))) (clamp y (dmin (dim1 b)) (dmax (dim1 b))) c"
  by (simp add: clamped_def clamped_at_eq)

lemma clamp_in_dim: "0 < extent d \<Longrightarrow> in_dim d (clamp x (dmin d) (dmax d))"
  unfolding in_dim_def dmax_def using clamp_lower[of "dmin d" x] clamp_upper[of "dmin d" "dmin d + extent d - 1" x]
  by simp

lemma clamp_in_dim_id: "in_dim d x \<Longrightarrow> clamp x (dmin d) (dmax d) = x"
  by (simp add: in_dim_def dmax_def)

text \<open>The clamped coordinate is a nearest coordinate inside the dimension.\<close>

lemma clamp_nearest:
  assumes "in_dim d u"
  shows "\<bar>clamp x (dmin d) (dmax d) - x\<bar> \<le> \<bar>u - x\<bar>"
  using assms by (auto simp: clamp_def in_dim_def dmax_def)

text \<open>C8: with non-empty x and y extents, \<open>clamped\<close> reads the input at a pixel inside
  the buffer that is a nearest one to the requested coordinates along each axis, and at
  the requested pixel itself when that is inside: edge repetition, never an
  out-of-bounds read and never a wrap-around.\<close>

theorem clamped_repeats_edge:
  assumes "0 < extent (dim0 b)" and "0 < extent (dim1 b)"
  shows "\<exists>x' y'. clamped b x y c = data b x' y' c
           \<and> in_dim (dim0 b) x' \<and> in_dim (dim1 b) y'
           \<and> (\<forall>u. in_dim (dim0 b) u \<longrightarrow> \<bar>x' - x\<bar> \<le> \<bar>u - x\<bar>)
           \<and> (\<forall>v. in_dim (dim1 b) v \<longrightarrow> \<bar>y' - y\<bar> \<le> \<bar>v - y\<bar>)
           \<and> (in_dim (dim0 b) x \<longrightarrow> x' = x) \<and> (in_dim (dim1 b) y \<longrightarrow> y' = y)"
proof (intro exI conjI allI impI)
  let ?x = "clamp x (dmin (dim0 b)) (dmax (dim0 b))"
  let ?y = "clamp y (dmin (dim1 b)) (dmax (dim1 b))"
  show "clamped b x y c = data b ?x ?y c" by (rule clamped_eq)
  show "in_dim (dim0 b) ?x" using assms(1) by (rule clamp_in_dim)
  show "in_dim (dim1 b) ?y" using assms(2) by (rule clamp_in_dim)
  show "\<bar>?x - x\<bar> \<le> \<bar>u - x\<bar>" if "in_dim (dim0 b) u" for u using that by (rule clamp_nearest)
  show "\<bar>?y - y\<bar> \<le> \<bar>v - y\<bar>" if "in_dim (dim1 b) v" for v using that by (rule clamp_nearest)
  show "?x = x" if "in_dim (dim0 b) x" using that by (rule clamp_in_dim_id)
  show "?y = y" if "in_dim (dim1 b) y" using that by (rule clamp_in_dim_id)
qed

theorem clamped_repeats_edge_witness:
  "0 < extent (dim0 test_buffer) \<and> 0 < extent (dim1 test_buffer)
   \<and> clamped test_buffer (-3) 7 0 = data test_buffer 0 4 0"
proof -
  have e: "0 < extent (dim0 test_buffer)" "0 < extent (dim1 test_buffer)"
    by (simp_all add: test_buffer_def)
  obtain x' y' where
    "clamped test_buffer (-3) 7 0 = data test_buffer x' y' 0"
    "in_dim (dim0 test_buffer) x'" "in_dim (dim1 test_buffer) y'"
    "\<forall>u. in_dim (dim0 test_buffer) u \<longrightarrow> \<bar>x' - (-3)\<bar> \<le> \<bar>u - (-3)\<bar>"
    "\<forall>v. in_dim (dim1 test_buffer) v \<longrightarrow> \<bar>y' - 7\<bar> \<le> \<bar>v - 7\<bar>"
    using clamped_repeats_edge[OF e, of "-3" 7 0] by blast
  moreover have "x' = 0"
  proof -
    have "in_dim (dim0 test_buffer) 0" by (simp add: test_buffer_def in_dim_def)
    with calculation(2,4) show ?thesis by (auto simp: test_buffer_def in_dim_def)
  qed
  moreover have "y' = 4"
  proof -
    have "in_dim (dim1 test_buffer) 4" by (simp add: test_buffer_def in_dim_def)
    with calculation(5) have "\<bar>y' - 7\<bar> \<le> \<bar>4 - 7\<bar>" by blast
    with calculation(3) show ?thesis by (simp add: test_buffer_def in_dim_def)
  qed
  ultimately show ?thesis using e by simp
qed

end
