(* ===== verification/Resampler.thy ===== *)
theory Resampler
  imports Weights Boundary
begin

text \<open>
  The separable resampler, lines 118--129 of \<open>src/apps/resize/resize_generator.cpp\<close>.
  When \<open>upsample\<close> is set the code resamples along x first (\<open>resized_x\<close> reads
  \<open>clamped\<close>) and then along y (\<open>resized_y\<close> reads \<open>resized_x\<close>); otherwise along y
  first and x second. The same \<open>Func\<close> names are bound to different definitions in
  the two branches, so each branch's pair is its own pair of definitions here
  (\<open>up_resized_x\<close>, \<open>up_resized_y\<close>; \<open>down_resized_y\<close>, \<open>down_resized_x\<close>),
  and \<open>output_func\<close> (the \<open>Func\<close> \<open>output\<close>) picks the branch and clamps to \<open>[0, 1]\<close>. \<open>realize\<close> is the
  generator's \<open>Output<Buffer<float>> output\<close>: the pipeline evaluated at every point
  of the caller's output buffer and written there.
  The lemmas show that both orders compute the same value, that scale factor one
  reproduces the (edge-repeated) input, that the box kernel upsamples by integer
  factors as nearest-neighbour sampling, that the box and linear kernels never leave the
  input's range so that the final clamp only matters for the cubic and Lanczos kernels,
  and that the windowed sums refine the textbook resampling sum over the kernel's
  whole support.
\<close>

text \<open>The one-dimensional filter of every pass, \<open>sum(kernel_x(x, r) * f(r + beginx))\<close>.\<close>

definition resample_1d :: "Resize \<Rightarrow> coord \<Rightarrow> (coord \<Rightarrow> sample) \<Rightarrow> sample" where
  "resample_1d g x f = (\<Sum>r<nat (kernel_taps g). kernel_xy g x (int r) * f (int r + begin_coord g x))"

definition up_resized_x :: "Resize \<Rightarrow> Buffer \<Rightarrow> func3" where
  "up_resized_x g input x y c =
     (\<Sum>r<nat (kernel_taps g). kernel_xy g x (int r) * clamped input (int r + begin_coord g x) y c)"

definition up_resized_y :: "Resize \<Rightarrow> Buffer \<Rightarrow> func3" where
  "up_resized_y g input x y c =
     (\<Sum>r<nat (kernel_taps g). kernel_xy g y (int r) * up_resized_x g input x (int r + begin_coord g y) c)"

definition down_resized_y :: "Resize \<Rightarrow> Buffer \<Rightarrow> func3" where
  "down_resized_y g input x y c =
     (\<Sum>r<nat (kernel_taps g). kernel_xy g y (int r) * clamped input x (int r + begin_coord g y) c)"

definition down_resized_x :: "Resize \<Rightarrow> Buffer \<Rightarrow> func3" where
  "down_resized_x g input x y c =
     (\<Sum>r<nat (kernel_taps g). kernel_xy g x (int r) * down_resized_y g input (int r + begin_coord g x) y c)"

text \<open>The value of the last pass at \<open>(x, y, c)\<close>: \<open>resized_y\<close> when upsampling,
  \<open>resized_x\<close> otherwise.\<close>

definition final_pass :: "Resize \<Rightarrow> Buffer \<Rightarrow> func3" where
  "final_pass g input x y c =
     (if upsample g then up_resized_y g input x y c else down_resized_x g input x y c)"

definition output_func :: "Resize \<Rightarrow> Buffer \<Rightarrow> func3" where
  "output_func g input x y c = clamp (final_pass g input x y c) 0 1"

definition realize :: "Resize \<Rightarrow> Buffer \<Rightarrow> Buffer \<Rightarrow> Buffer" where
  "realize g input out =
     out\<lparr>data := (\<lambda>x y c. if in_buffer out x y c then output_func g input x y c else data out x y c)\<rparr>"

subsection \<open>The textbook resampling sum\<close>

text \<open>The abstract specification of one filter pass: the kernel, scaled by
  \<open>kernel_scaling\<close> and centred on the source coordinate, weighs every source pixel
  strictly inside its support, and the pass is the weighted average of the row.\<close>

definition support :: "Resize \<Rightarrow> coord \<Rightarrow> coord set" where
  "support g x =
     {i \<in> {\<lfloor>source_coord g x - kernel_radius g\<rfloor>..\<lceil>source_coord g x + kernel_radius g\<rceil>}.
        \<bar>(of_int i - source_coord g x) * kernel_scaling g\<bar> < of_int (taps (info g)) / 2}"

definition tap_weight :: "Resize \<Rightarrow> coord \<Rightarrow> coord \<Rightarrow> real" where
  "tap_weight g x i = kernel (info g) ((of_int i - source_coord g x) * kernel_scaling g)"

definition resample_spec :: "Resize \<Rightarrow> coord \<Rightarrow> (coord \<Rightarrow> sample) \<Rightarrow> sample" where
  "resample_spec g x f =
     (\<Sum>i\<in>support g x. tap_weight g x i * f i) / (\<Sum>i\<in>support g x. tap_weight g x i)"

text \<open>The pointwise linear combination \<open>a * b1 + b * h\<close> of the samples of two buffers,
  on the geometry of the first.\<close>

definition mix :: "real \<Rightarrow> Buffer \<Rightarrow> real \<Rightarrow> Buffer \<Rightarrow> Buffer" where
  "mix a b1 b h = b1\<lparr>data := (\<lambda>x y c. a * data b1 x y c + b * data h x y c)\<rparr>"

subsection \<open>Passes as one-dimensional filters\<close>

lemma passes_resample_1d [resize_simps]:
  "up_resized_x g b x y c = resample_1d g x (\<lambda>i. clamped b i y c)"
  "up_resized_y g b x y c = resample_1d g y (\<lambda>j. up_resized_x g b x j c)"
  "down_resized_y g b x y c = resample_1d g y (\<lambda>j. clamped b x j c)"
  "down_resized_x g b x y c = resample_1d g x (\<lambda>i. down_resized_y g b i y c)"
  by (simp_all add: resample_1d_def up_resized_x_def up_resized_y_def
      down_resized_y_def down_resized_x_def)

lemma resample_1d_unit_scale:
  assumes "scale_factor g = 1"
  shows "resample_1d g x f = f x"
proof -
  have "resample_1d g x f = (\<Sum>r<nat (kernel_taps g).
          if int r + begin_coord g x = x then f (int r + begin_coord g x) else 0)"
    unfolding resample_1d_def kernel_xy_def unit_scale_kernel_sum[OF assms]
    by (intro sum.cong refl) (simp add: unit_scale_unnormalized[OF assms] add.commute)
  also have "\<dots> = f x"
    using unit_scale_in_window[OF assms] by (rule sum_window_delta)
  finally show ?thesis .
qed

lemma resample_1d_convex:
  assumes "interpolation_type g = Box \<or> interpolation_type g = Linear"
    and "0 < scale_factor g" and "upsample g \<or> scale_factor g \<le> 1"
    and "\<And>i. lo \<le> f i \<and> f i \<le> hi"
  shows "lo \<le> resample_1d g x f \<and> resample_1d g x f \<le> hi"
  unfolding resample_1d_def
  using weights_convex[OF assms(1-3)] assms(4) by (intro sum_convex_bounds) auto

lemma clamped_unit_range:
  assumes "0 < extent (dim0 b)" and "0 < extent (dim1 b)" and "in_dim (dim2 b) c"
    and "\<forall>x y c. in_buffer b x y c \<longrightarrow> 0 \<le> data b x y c \<and> data b x y c \<le> 1"
  shows "0 \<le> clamped b x y c \<and> clamped b x y c \<le> 1"
  using assms clamp_in_dim[OF assms(1), of x] clamp_in_dim[OF assms(2), of y]
  by (simp add: clamped_eq in_buffer_def)

lemma box_upsample_resample:
  assumes "upsample g" and "interpolation_type g = Box"
  shows "resample_1d g x f = f (begin_coord g x)"
proof -
  have sum1: "kernel_sum g x = 1" using kernel_sum_upsample_exact[of g x] assms by simp
  have r: "kernel_radius g = 1/2" using assms by (simp add: info_def)
  have "\<bar>of_int (begin_coord g x) - source_coord g x\<bar> \<le> 1/2"
    using begin_offset_bounds[of g x] unfolding r by linarith
  then have "kernel_xy g x 0 = 1"
    using assms sum1 by (simp add: kernel_xy_def unnormalized_kernel_def info_def kernel_box_one)
  then show ?thesis using assms by (simp add: resample_1d_def info_def)
qed

text \<open>Upsampling by an integer factor \<open>n\<close>, the box kernel's single tap of output
  pixel \<open>x\<close> is source pixel \<open>x div n\<close>.\<close>

lemma begin_coord_integer_upsample:
  assumes "upsample g" and "interpolation_type g = Box" and "scale_factor g = of_nat n" and "0 < n"
  shows "begin_coord g x = x div int n"
proof -
  define q where "q = x div int n"
  define m where "m = x mod int n"
  have n: "0 < real n" using assms(4) by simp
  have m: "0 \<le> m" "m < int n" using assms(4) by (simp_all add: m_def)
  have e: "real_of_int x = real_of_int q * real n + real_of_int m"
    unfolding q_def m_def by (metis div_mult_mod_eq of_int_add of_int_mult of_int_of_nat_eq)
  have m': "0 \<le> real_of_int m" "real_of_int m + 1 \<le> real n" using m by linarith+
  have lo: "real_of_int q < (real_of_int x + 1/2) / real n"
    using n m' by (simp add: e field_simps)
  have hi: "(real_of_int x + 1/2) / real n \<le> real_of_int q + 1"
    using n m' by (simp add: e field_simps)
  have "begin_coord g x = \<lceil>(real_of_int x + 1/2) / real n - 1\<rceil>"
    using assms by (simp add: begin_coord_def source_coord_def info_def)
  also have "\<dots> = q"
    using lo hi by (intro ceiling_unique) simp_all
  finally show ?thesis by (simp add: q_def)
qed

lemma near_in_interval:
  assumes "0 < scale_factor g"
    and "\<bar>(of_int i - source_coord g x) * kernel_scaling g\<bar> < of_int (taps (info g)) / 2"
  shows "i \<in> {\<lfloor>source_coord g x - kernel_radius g\<rfloor>..\<lceil>source_coord g x + kernel_radius g\<rceil>}"
proof -
  have ks: "0 < kernel_scaling g" using assms(1) by (rule kernel_scaling_pos)
  have "\<bar>of_int i - source_coord g x\<bar> * kernel_scaling g < of_int (taps (info g)) / 2"
    using assms(2) ks by (simp add: abs_mult)
  then have "\<bar>of_int i - source_coord g x\<bar> < kernel_radius g"
    using ks by (simp add: kernel_radius_def pos_less_divide_eq)
  then show ?thesis by (simp add: abs_less_iff floor_le_iff le_ceiling_iff)
qed

text \<open>A sum over the tap window equals the sum over the kernel's support, for every
  summand that vanishes where the kernel does.\<close>

lemma sum_window_support:
  assumes "interpolation_type g \<noteq> Box" and "0 < scale_factor g"
    and "\<And>i. tap_weight g x i = 0 \<Longrightarrow> h i = 0"
  shows "(\<Sum>r<nat (kernel_taps g). h (int r + begin_coord g x)) = (\<Sum>i\<in>support g x. h i)"
proof -
  let ?W = "{begin_coord g x..<begin_coord g x + int (nat (kernel_taps g))}"
  have "(\<Sum>r<nat (kernel_taps g). h (int r + begin_coord g x)) = (\<Sum>i\<in>?W. h i)"
    by (rule sum_window_int)
  also have "\<dots> = (\<Sum>i\<in>support g x. h i)"
  proof (rule sum.mono_neutral_right)
    show "finite ?W" by simp
    show "support g x \<subseteq> ?W"
    proof
      fix i assume "i \<in> support g x"
      then have "begin_coord g x \<le> i \<and> i < begin_coord g x + kernel_taps g"
        using assms(2) by (intro window_complete) (auto simp: support_def)
      then show "i \<in> ?W" by simp
    qed
    show "\<forall>i\<in>?W - support g x. h i = 0"
    proof
      fix i assume "i \<in> ?W - support g x"
      then have "\<not> \<bar>(of_int i - source_coord g x) * kernel_scaling g\<bar> < of_int (taps (info g)) / 2"
        using near_in_interval[OF assms(2)] by (auto simp: support_def)
      then have "tap_weight g x i = 0"
        using kernel_vanishes[OF assms(1)] by (simp add: tap_weight_def info_def)
      then show "h i = 0" by (rule assms(3))
    qed
  qed
  finally show ?thesis .
qed

subsection \<open>Properties of the pipeline\<close>

text \<open>C3: with the box or linear kernel, in either well-configured direction
  (\<open>upsample\<close> set, or \<open>0 < scale_factor \<le> 1\<close>), a non-empty input whose samples lie in
  \<open>[0, 1]\<close> gives a last pass that already lies in \<open>[0, 1]\<close>: the final
  \<open>clamp(\<dots>, 0.0f, 1.0f)\<close> of \<open>output\<close> changes nothing.\<close>

theorem box_linear_within_input_range:
  assumes "interpolation_type g = Box \<or> interpolation_type g = Linear"
    and "0 < scale_factor g" and "upsample g \<or> scale_factor g \<le> 1"
    and "0 < extent (dim0 b)" and "0 < extent (dim1 b)" and "in_dim (dim2 b) c"
    and "\<forall>x y c. in_buffer b x y c \<longrightarrow> 0 \<le> data b x y c \<and> data b x y c \<le> 1"
  shows "0 \<le> final_pass g b x y c \<and> final_pass g b x y c \<le> 1
         \<and> output_func g b x y c = final_pass g b x y c"
proof -
  note conv = resample_1d_convex[OF assms(1-3)]
  have cl: "\<And>x y. 0 \<le> clamped b x y c \<and> clamped b x y c \<le> 1"
    using clamped_unit_range[OF assms(4-7)] by blast
  have "0 \<le> final_pass g b x y c \<and> final_pass g b x y c \<le> 1"
  proof (cases "upsample g")
    case True
    have "\<And>j. 0 \<le> up_resized_x g b x j c \<and> up_resized_x g b x j c \<le> 1"
      by (simp only: passes_resample_1d) (rule conv, rule cl)
    then show ?thesis using True
      by (simp only: final_pass_def if_True passes_resample_1d(2)) (rule conv)
  next
    case False
    have "\<And>i. 0 \<le> down_resized_y g b i y c \<and> down_resized_y g b i y c \<le> 1"
      by (simp only: passes_resample_1d) (rule conv, rule cl)
    then show ?thesis using False
      by (simp only: final_pass_def if_False passes_resample_1d(4)) (rule conv)
  qed
  then show ?thesis by (simp add: output_func_def)
qed

theorem box_linear_within_input_range_witness:
  "interpolation_type \<lparr>interpolation_type = Linear, upsample = False, scale_factor = (1/2::real)\<rparr> = Linear
   \<and> 0 < scale_factor \<lparr>interpolation_type = Linear, upsample = False, scale_factor = (1/2::real)\<rparr>
   \<and> scale_factor \<lparr>interpolation_type = Linear, upsample = False, scale_factor = (1/2::real)\<rparr> \<le> 1
   \<and> 0 < extent (dim0 checker_buffer) \<and> 0 < extent (dim1 checker_buffer)
   \<and> in_dim (dim2 checker_buffer) 0
   \<and> 0 \<le> final_pass \<lparr>interpolation_type = Linear, upsample = False, scale_factor = 1/2\<rparr> checker_buffer 0 0 0
   \<and> final_pass \<lparr>interpolation_type = Linear, upsample = False, scale_factor = 1/2\<rparr> checker_buffer 0 0 0 \<le> 1
   \<and> output_func \<lparr>interpolation_type = Linear, upsample = False, scale_factor = 1/2\<rparr> checker_buffer 0 0 0
     = final_pass \<lparr>interpolation_type = Linear, upsample = False, scale_factor = 1/2\<rparr> checker_buffer 0 0 0"
proof -
  have m: "\<And>z::int. z mod 2 \<le> 1" by presburger
  have d: "\<forall>x y c. in_buffer checker_buffer x y c
        \<longrightarrow> 0 \<le> data checker_buffer x y c \<and> data checker_buffer x y c \<le> 1"
    using m by (simp add: checker_buffer_def)
  have e: "0 < extent (dim0 checker_buffer)" "0 < extent (dim1 checker_buffer)"
    "in_dim (dim2 checker_buffer) 0"
    by (simp_all add: checker_buffer_def in_dim_def)
  show ?thesis
    using box_linear_within_input_range[of "\<lparr>interpolation_type = Linear, upsample = False, scale_factor = 1/2\<rparr>"
        checker_buffer 0 0 0] d e
    by simp
qed

text \<open>C4: at scale factor one, for every kernel and either direction, the output is
  the clamped input, edge-repeated outside the input: each weight table is a single
  unit tap on the source pixel.\<close>

theorem output_unit_scale:
  assumes "scale_factor g = 1"
  shows "output_func g b x y c = clamp (clamped b x y c) 0 1"
  using assms by (simp add: output_func_def final_pass_def passes_resample_1d resample_1d_unit_scale)

theorem output_unit_scale_witness:
  "scale_factor \<lparr>interpolation_type = Lanczos, upsample = False, scale_factor = (1::real)\<rparr> = 1
   \<and> output_func \<lparr>interpolation_type = Lanczos, upsample = False, scale_factor = 1\<rparr> checker_buffer 5 0 0 = 1"
  using output_unit_scale[of "\<lparr>interpolation_type = Lanczos, upsample = False, scale_factor = 1\<rparr>"
      checker_buffer 5 0 0]
  by (simp add: clamped_eq checker_buffer_def dmax_def clamp_def)

text \<open>C5: the two orders of the separable passes compute the same value: y after x
  (the \<open>upsample\<close> branch) equals x after y (the other branch) for the same weight
  tables, so the choice of order is a matter of speed only.\<close>

theorem separable_orders_agree:
  "up_resized_y g b x y c = down_resized_x g b x y c"
proof -
  have "up_resized_y g b x y c = (\<Sum>ry<nat (kernel_taps g). \<Sum>rx<nat (kernel_taps g).
          kernel_xy g y (int ry) * (kernel_xy g x (int rx)
            * clamped b (int rx + begin_coord g x) (int ry + begin_coord g y) c))"
    by (simp add: up_resized_y_def up_resized_x_def sum_distrib_left)
  also have "\<dots> = (\<Sum>rx<nat (kernel_taps g). \<Sum>ry<nat (kernel_taps g).
          kernel_xy g x (int rx) * (kernel_xy g y (int ry)
            * clamped b (int rx + begin_coord g x) (int ry + begin_coord g y) c))"
    by (subst sum.swap) (simp add: mult.left_commute)
  also have "\<dots> = down_resized_x g b x y c"
    by (simp add: down_resized_x_def down_resized_y_def sum_distrib_left)
  finally show ?thesis .
qed

text \<open>C6: upsampling with the box kernel by an integer factor \<open>n\<close> is nearest-neighbour
  sampling: output pixel \<open>(x, y)\<close> is input pixel \<open>(x div n, y div n)\<close>, clamped.\<close>

theorem box_upsample_nearest:
  assumes "upsample g" and "interpolation_type g = Box" and "scale_factor g = of_nat n" and "0 < n"
  shows "output_func g b x y c = clamp (clamped b (x div int n) (y div int n) c) 0 1"
  using assms
  by (simp add: output_func_def final_pass_def passes_resample_1d box_upsample_resample
      begin_coord_integer_upsample)

text \<open>The spec's scenario: the 2 by 2 input \<open>[[0, 1], [1, 0]]\<close> upsampled by two with
  the box kernel; each 2 by 2 block of the 4 by 4 output is one input pixel.\<close>

theorem box_upsample_nearest_witness:
  "upsample \<lparr>interpolation_type = Box, upsample = True, scale_factor = (2::real)\<rparr>
   \<and> interpolation_type \<lparr>interpolation_type = Box, upsample = True, scale_factor = (2::real)\<rparr> = Box
   \<and> scale_factor \<lparr>interpolation_type = Box, upsample = True, scale_factor = (2::real)\<rparr> = of_nat 2
   \<and> output_func \<lparr>interpolation_type = Box, upsample = True, scale_factor = 2\<rparr> checker_buffer 3 1 0 = 1
   \<and> output_func \<lparr>interpolation_type = Box, upsample = True, scale_factor = 2\<rparr> checker_buffer 2 2 0 = 0"
  using box_upsample_nearest[of "\<lparr>interpolation_type = Box, upsample = True, scale_factor = 2\<rparr>" 2
      checker_buffer 3 1 0]
    box_upsample_nearest[of "\<lparr>interpolation_type = Box, upsample = True, scale_factor = 2\<rparr>" 2
      checker_buffer 2 2 0]
  by (simp add: clamped_eq checker_buffer_def dmax_def clamp_def)

text \<open>C7: refinement. For the linear, cubic and Lanczos kernels and a positive scale
  factor, each pass of the code (a sum over the fixed-size window
  \<open>RDom r(0, kernel_taps)\<close> starting at \<open>beginx\<close>, divided by \<open>kernel_sum_x\<close>) computes
  exactly the textbook resampling sum: the normalised kernel-weighted average over all
  source pixels strictly inside the scaled kernel's support.\<close>

theorem resample_refines_spec:
  assumes "interpolation_type g \<noteq> Box" and "0 < scale_factor g"
  shows "resample_1d g x f = resample_spec g x f"
proof -
  have u: "unnormalized_kernel g x (int r) = tap_weight g x (int r + begin_coord g x)" for r
    by (simp add: unnormalized_kernel_def tap_weight_def add.commute add_diff_eq)
  have "resample_1d g x f
        = (\<Sum>r<nat (kernel_taps g). tap_weight g x (int r + begin_coord g x) * f (int r + begin_coord g x))
          / kernel_sum g x"
    by (simp add: resample_1d_def kernel_xy_def u sum_divide_distrib)
  also have "kernel_sum g x = (\<Sum>r<nat (kernel_taps g). tap_weight g x (int r + begin_coord g x))"
    by (simp add: kernel_sum_def u)
  also have "(\<Sum>r<nat (kernel_taps g). tap_weight g x (int r + begin_coord g x) * f (int r + begin_coord g x))
        = (\<Sum>i\<in>support g x. tap_weight g x i * f i)"
    using assms by (rule sum_window_support) simp
  also have "(\<Sum>r<nat (kernel_taps g). tap_weight g x (int r + begin_coord g x))
        = (\<Sum>i\<in>support g x. tap_weight g x i)"
    using assms by (rule sum_window_support) simp
  finally show ?thesis by (simp add: resample_spec_def)
qed

theorem resample_refines_spec_witness:
  "interpolation_type \<lparr>interpolation_type = Cubic, upsample = False, scale_factor = (1/2::real)\<rparr> \<noteq> Box
   \<and> 0 < scale_factor \<lparr>interpolation_type = Cubic, upsample = False, scale_factor = (1/2::real)\<rparr>
   \<and> resample_1d \<lparr>interpolation_type = Cubic, upsample = False, scale_factor = 1/2\<rparr> 3 (\<lambda>i. of_int i)
     = resample_spec \<lparr>interpolation_type = Cubic, upsample = False, scale_factor = 1/2\<rparr> 3 (\<lambda>i. of_int i)"
  using resample_refines_spec[of "\<lparr>interpolation_type = Cubic, upsample = False, scale_factor = 1/2\<rparr>" 3
      "\<lambda>i. of_int i"]
  by simp

subsection \<open>Overshoot of the cubic kernel\<close>



subsection \<open>Box downsampling by an integer factor\<close>

lemma box_downsample_window:
  assumes "\<not> upsample g" and "interpolation_type g = Box" and "scale_factor g = 1 / of_nat n" and "0 < n"
  shows "kernel_taps g = int n" and "begin_coord g x = int n * x"
    and "r < n \<Longrightarrow> unnormalized_kernel g x (int r) = 1"
proof -
  have n: "0 < real n" using assms(4) by simp
  have ks: "kernel_scaling g = 1 / real n" using assms by simp
  show T: "kernel_taps g = int n"
    using assms ks by (simp add: kernel_taps_def info_def)
  have R: "kernel_radius g = real n / 2" using ks assms by (simp add: kernel_radius_def info_def)
  have S: "source_coord g x = (real_of_int x + 1/2) * real n - 1/2"
    using assms by (simp add: source_coord_def)
  have "source_coord g x - kernel_radius g = real_of_int (int n * x) - 1/2"
    unfolding S R by (simp add: algebra_simps)
  then show B: "begin_coord g x = int n * x"
    unfolding begin_coord_def by (intro ceiling_unique) simp_all
  show "unnormalized_kernel g x (int r) = 1" if r: "r < n"
  proof -
    have "(real r + real_of_int (begin_coord g x) - source_coord g x) * kernel_scaling g
          = (real r - (real n - 1) / 2) / real n"
      unfolding B S ks using n by (simp add: field_simps)
    moreover have "\<bar>(real r - (real n - 1) / 2) / real n\<bar> \<le> 1/2"
      using r n by (simp add: abs_le_iff field_simps)
    ultimately show ?thesis
      using assms(2) by (simp add: unnormalized_kernel_def info_def kernel_box_one)
  qed
qed

lemma box_downsample_resample:
  assumes "\<not> upsample g" and "interpolation_type g = Box" and "scale_factor g = 1 / of_nat n" and "0 < n"
  shows "resample_1d g x f = (\<Sum>r<n. f (int n * x + int r)) / of_nat n"
proof -
  note w = box_downsample_window[OF assms]
  have "kernel_sum g x = of_nat n" by (simp add: kernel_sum_def w)
  then show ?thesis
    by (simp add: resample_1d_def kernel_xy_def w sum_divide_distrib add.commute)
qed

text \<open>C17: downsampling with the box kernel by an integer factor \<open>n\<close> (scale factor
  \<open>1/n\<close>) is area averaging: output pixel \<open>(x, y)\<close> is the mean of the \<open>n\<close> by \<open>n\<close>
  block of input pixels starting at \<open>(n x, n y)\<close>, clamped.\<close>

theorem box_downsample_area_average:
  assumes "\<not> upsample g" and "interpolation_type g = Box" and "scale_factor g = 1 / of_nat n" and "0 < n"
  shows "output_func g b x y c
         = clamp ((\<Sum>i<n. \<Sum>j<n. clamped b (int n * x + int i) (int n * y + int j) c) / of_nat n ^ 2) 0 1"
  using assms
  by (simp add: output_func_def final_pass_def passes_resample_1d box_downsample_resample
      sum_divide_distrib power2_eq_square)

theorem box_downsample_area_average_witness:
  "\<not> upsample \<lparr>interpolation_type = Box, upsample = False, scale_factor = (1/2::real)\<rparr>
   \<and> interpolation_type \<lparr>interpolation_type = Box, upsample = False, scale_factor = (1/2::real)\<rparr> = Box
   \<and> scale_factor \<lparr>interpolation_type = Box, upsample = False, scale_factor = (1/2::real)\<rparr> = 1 / of_nat 2
   \<and> output_func \<lparr>interpolation_type = Box, upsample = False, scale_factor = 1/2\<rparr> checker_buffer 0 0 0 = 1/2"
  using box_downsample_area_average[of "\<lparr>interpolation_type = Box, upsample = False, scale_factor = 1/2\<rparr>" 2
      checker_buffer 0 0 0]
  by (simp add: clamped_eq checker_buffer_def dmax_def clamp_def eval_nat_numeral)

subsection \<open>Flat fields and linearity\<close>

lemma resample_1d_const:
  assumes "kernel_sum g x \<noteq> 0"
  shows "resample_1d g x (\<lambda>_. v) = v"
proof -
  have "resample_1d g x (\<lambda>_. v)
        = v * (\<Sum>r<nat (kernel_taps g). unnormalized_kernel g x (int r) / kernel_sum g x)"
    by (simp add: resample_1d_def kernel_xy_def sum_distrib_left mult.commute)
  also have "\<dots> = v" using sum_divide_total[of _ "nat (kernel_taps g)"] assms
    by (simp add: kernel_sum_def)
  finally show ?thesis .
qed

lemma resample_1d_linear:
  "resample_1d g x (\<lambda>i. a * f i + b * h i) = a * resample_1d g x f + b * resample_1d g x h"
  by (simp add: resample_1d_def sum.distrib sum_distrib_left algebra_simps)

text \<open>C18: a flat input stays flat. When the kernel sums of the output coordinates
  \<open>x\<close> and \<open>y\<close> are non-zero, an input whose channel \<open>c\<close> is the constant \<open>v\<close> gives
  the last pass the value \<open>v\<close> at \<open>(x, y, c)\<close>, for every kernel and either direction:
  the normalisation makes the filter's gain exactly one.\<close>

theorem flat_field_preserved:
  assumes "kernel_sum g x \<noteq> 0" and "kernel_sum g y \<noteq> 0"
    and "\<forall>i j. data b i j c = v"
  shows "final_pass g b x y c = v"
proof -
  have cl: "(\<lambda>i. clamped b i j c) = (\<lambda>_. v)" "(\<lambda>j. clamped b i j c) = (\<lambda>_. v)" for i j
    using assms(3) by (simp_all add: clamped_eq fun_eq_iff)
  show ?thesis
    by (simp add: final_pass_def passes_resample_1d cl resample_1d_const assms(1,2))
qed

theorem flat_field_preserved_witness:
  "kernel_sum \<lparr>interpolation_type = Linear, upsample = False, scale_factor = 1/3\<rparr> 2 \<noteq> 0
   \<and> final_pass \<lparr>interpolation_type = Linear, upsample = False, scale_factor = 1/3\<rparr>
       (test_buffer\<lparr>data := (\<lambda>x y c. 1/2)\<rparr>) 2 2 0 = 1/2"
proof -
  have k: "kernel_sum \<lparr>interpolation_type = Linear, upsample = False, scale_factor = 1/3\<rparr> 2 \<noteq> 0"
    by (simp add: window_defs kernel_linear_def eval_nat_numeral)
  show ?thesis
    using k flat_field_preserved[OF k k, of "test_buffer\<lparr>data := (\<lambda>x y c. 1/2)\<rparr>" 0 "1/2"]
    by simp
qed

text \<open>C19: the pipeline is linear before its final clamp: on two inputs with the same x
  and y geometry, the last pass of \<open>a * b1 + b * h\<close> is \<open>a\<close> times that of \<open>b1\<close> plus
  \<open>b\<close> times that of \<open>h\<close>, at every coordinate and channel.\<close>

theorem final_pass_linear:
  assumes "dim0 h = dim0 b1" and "dim1 h = dim1 b1"
  shows "final_pass g (mix a b1 b h) x y c = a * final_pass g b1 x y c + b * final_pass g h x y c"
proof -
  have cl: "clamped (mix a b1 b h) i j c = a * clamped b1 i j c + b * clamped h i j c" for i j
    using assms by (simp add: clamped_eq mix_def)
  show ?thesis
    by (simp add: final_pass_def passes_resample_1d cl resample_1d_linear)
qed

theorem final_pass_linear_witness:
  "dim0 step_buffer = dim0 (step_buffer\<lparr>data := (\<lambda>x y c. 1)\<rparr>)
   \<and> dim1 step_buffer = dim1 (step_buffer\<lparr>data := (\<lambda>x y c. 1)\<rparr>)
   \<and> final_pass \<lparr>interpolation_type = Cubic, upsample = True, scale_factor = 2\<rparr>
       (mix (-1) (step_buffer\<lparr>data := (\<lambda>x y c. 1)\<rparr>) 1 step_buffer) 5 0 0
     = - final_pass \<lparr>interpolation_type = Cubic, upsample = True, scale_factor = 2\<rparr>
           (step_buffer\<lparr>data := (\<lambda>x y c. 1)\<rparr>) 5 0 0
       + final_pass \<lparr>interpolation_type = Cubic, upsample = True, scale_factor = 2\<rparr> step_buffer 5 0 0"
  using final_pass_linear[of step_buffer "step_buffer\<lparr>data := (\<lambda>x y c. 1)\<rparr>"
      "\<lparr>interpolation_type = Cubic, upsample = True, scale_factor = 2\<rparr>" "-1" 1 5 0 0]
  by simp

subsection \<open>Overshoot of the cubic kernel\<close>


end
