(* ===== verification/Schedule.thy ===== *)
theory Schedule
  imports Resampler
begin

text \<open>
  The execution strategy, \<open>Resize::schedule()\<close>, lines 132--175 of
  \<open>src/apps/resize/resize_generator.cpp\<close>, as an explicit loop nest over output tiles.
  \<open>output.tile(x, y, xi, yi, 16, 64)\<close> (upsampling) or \<open>(32, 8)\<close> (downsampling)
  splits x and y; the tail of each split follows Halide's default for a pure output
  definition, \<^emph>\<open>shift inwards\<close>: the start of outer tile \<open>i\<close> is
  \<open>min(min + i * factor, min + extent - factor)\<close>, so the last tile is moved back inside
  the extent and some pixels are computed twice (\<open>split_starts\<close>; Halide semantics,
  modelled from its documentation). \<open>kernel_x.compute_root()\<close> is a table of the
  weights over the output's x extent, computed once; \<open>kernel_y.compute_at(output, y)\<close>
  is a table per tile row; both are lists of lists read by index
  (\<open>weight_table\<close>, \<open>resample_table\<close>). A tile stores, at each of its pixels and
  channels, the pipeline's value computed through the tables (\<open>store_tile\<close>); the
  tiles run in the loop order (\<open>run_tiles\<close>), and \<open>parallel(y)\<close> may run them in any
  order. Before running, Halide checks that the region the tiles write lies inside the
  output buffer and otherwise fails the call (\<open>run_schedule\<close>, an error value).
  \<open>vectorize\<close>, and the \<open>compute_at\<close> placement of \<open>resized_x\<close>, \<open>resized_y\<close> and
  \<open>clamped\<close>, decide where values are stored, not what they are, and are folded into
  the value a tile stores.
  The theorems: with output extents that are zero or at least the tile size, the
  schedule writes exactly what \<open>realize\<close> writes (C13); the result depends only on the
  set of tiles, not on their order (C14); an output extent between zero and the tile
  size makes the call fail (C15).
\<close>

text \<open>The outer-loop starts of \<open>split(v, vo, vi, factor)\<close> over \<open>[m, m + e)\<close> with the
  shift-inwards tail.\<close>

definition split_starts :: "coord \<Rightarrow> coord \<Rightarrow> nat \<Rightarrow> coord list" where
  "split_starts m e f =
     map (\<lambda>i. min (m + int i * int f) (m + e - int f)) [0..<nat ((e + int f - 1) div int f)]"

text \<open>Halide's rejection of a call whose output region falls outside the output buffer,
  by dimension.\<close>

datatype bounds_error = OutputAccessedBeforeMin nat

text \<open>The tile sizes of \<open>output.tile(x, y, xi, yi, \<dots>)\<close> in the two branches.\<close>

definition tile_factors :: "Resize \<Rightarrow> nat \<times> nat" where
  "tile_factors g = (if upsample g then (16, 64) else (32, 8))"

text \<open>A memoised weight table: row \<open>i\<close> holds \<open>kernel_x(m + i, r)\<close> for every tap.\<close>

definition weight_table :: "Resize \<Rightarrow> coord \<Rightarrow> nat \<Rightarrow> real list list" where
  "weight_table g m n =
     map (\<lambda>i. map (\<lambda>r. kernel_xy g (m + int i) (int r)) [0..<nat (kernel_taps g)]) [0..<n]"

text \<open>A pass that reads its weights from a table starting at coordinate \<open>m\<close>.\<close>

definition resample_table :: "Resize \<Rightarrow> real list list \<Rightarrow> coord \<Rightarrow> coord \<Rightarrow> (coord \<Rightarrow> sample) \<Rightarrow> sample" where
  "resample_table g tab m x f =
     (\<Sum>r<nat (kernel_taps g). tab ! nat (x - m) ! r * f (int r + begin_coord g x))"

text \<open>The value of \<open>output(x, y, c)\<close> as the scheduled pipeline computes it, with the
  x weights from the root table and the y weights from the tile's table.\<close>

definition scheduled_value :: "Resize \<Rightarrow> Buffer \<Rightarrow> real list list \<Rightarrow> coord \<Rightarrow> real list list \<Rightarrow> coord \<Rightarrow> func3" where
  "scheduled_value g input tabx mx taby my x y c =
     clamp (if upsample g
            then resample_table g taby my y (\<lambda>j. resample_table g tabx mx x (\<lambda>i. clamped input i j c))
            else resample_table g tabx mx x (\<lambda>i. resample_table g taby my y (\<lambda>j. clamped input i j c)))
       0 1"

definition in_tile :: "nat \<times> nat \<Rightarrow> coord \<times> coord \<Rightarrow> coord \<Rightarrow> coord \<Rightarrow> bool" where
  "in_tile fs t x y \<longleftrightarrow> fst t \<le> x \<and> x < fst t + int (fst fs) \<and> snd t \<le> y \<and> y < snd t + int (snd fs)"

text \<open>One tile of the loop nest: the \<open>yi\<close>, \<open>xi\<close> loops and the channel loop store the
  value at every pixel of the tile inside the output's channel range.\<close>

definition store_tile :: "Resize \<Rightarrow> Buffer \<Rightarrow> real list list \<Rightarrow> Buffer \<Rightarrow> coord \<times> coord \<Rightarrow> Buffer" where
  "store_tile g input tabx out t =
     out\<lparr>data := (\<lambda>x y c.
        if in_tile (tile_factors g) t x y \<and> in_dim (dim2 out) c
        then scheduled_value g input tabx (dmin (dim0 out))
               (weight_table g (snd t) (snd (tile_factors g))) (snd t) x y c
        else data out x y c)\<rparr>"

text \<open>The outer tile loops, \<open>y\<close> outside (the \<open>parallel\<close> loop) and \<open>x\<close> inside.\<close>

definition schedule_tiles :: "Resize \<Rightarrow> Buffer \<Rightarrow> (coord \<times> coord) list" where
  "schedule_tiles g out =
     concat (map (\<lambda>ty. map (\<lambda>tx. (tx, ty))
                   (split_starts (dmin (dim0 out)) (extent (dim0 out)) (fst (tile_factors g))))
                 (split_starts (dmin (dim1 out)) (extent (dim1 out)) (snd (tile_factors g))))"

definition run_tiles :: "Resize \<Rightarrow> Buffer \<Rightarrow> real list list \<Rightarrow> Buffer \<Rightarrow> (coord \<times> coord) list \<Rightarrow> Buffer" where
  "run_tiles g input tabx out ts = fold (\<lambda>t b. store_tile g input tabx b t) ts out"

text \<open>The scheduled pipeline: the bounds check, the root weight table, the tile loop.\<close>

definition run_schedule :: "Resize \<Rightarrow> Buffer \<Rightarrow> Buffer \<Rightarrow> bounds_error + Buffer" where
  "run_schedule g input out =
     (let ts = schedule_tiles g out;
          tabx = weight_table g (dmin (dim0 out)) (nat (extent (dim0 out)))
      in if \<exists>t\<in>set ts. fst t < dmin (dim0 out) then Inl (OutputAccessedBeforeMin 0)
         else if \<exists>t\<in>set ts. snd t < dmin (dim1 out) then Inl (OutputAccessedBeforeMin 1)
         else Inr (run_tiles g input tabx out ts))"

text \<open>Auxiliary: the value a tile stores, with the y weights computed directly.\<close>

definition tiled_value :: "Resize \<Rightarrow> Buffer \<Rightarrow> real list list \<Rightarrow> coord \<Rightarrow> func3" where
  "tiled_value g input tabx mx x y c =
     clamp (if upsample g
            then resample_1d g y (\<lambda>j. resample_table g tabx mx x (\<lambda>i. clamped input i j c))
            else resample_table g tabx mx x (\<lambda>i. resample_1d g y (\<lambda>j. clamped input i j c)))
       0 1"

text \<open>An extent the split handles without stepping outside it: empty, or at least one
  tile.\<close>

definition fits :: "coord \<Rightarrow> nat \<Rightarrow> bool" where
  "fits e f \<longleftrightarrow> e \<le> 0 \<or> int f \<le> e"

subsection \<open>Tiles and tables\<close>

lemma split_starts_inside:
  assumes "0 < f" and "int f \<le> e" and "t \<in> set (split_starts m e f)"
  shows "m \<le> t \<and> t + int f \<le> m + e"
  using assms by (auto simp: split_starts_def)

lemma split_starts_cover:
  assumes "0 < f" and "int f \<le> e" and "m \<le> x" and "x < m + e"
  shows "\<exists>t \<in> set (split_starts m e f). t \<le> x \<and> x < t + int f"
proof -
  define q where "q = (x - m) div int f"
  have f: "0 < int f" using assms(1) by simp
  define r where "r = (x - m) mod int f"
  have q0: "0 \<le> q" using assms(3) f by (simp add: q_def pos_imp_zdiv_nonneg_iff)
  have e: "q * int f + r = x - m" unfolding q_def r_def by (rule div_mult_mod_eq)
  have r: "0 \<le> r" "r < int f" using f by (simp_all add: r_def)
  have "q * int f < e" using e r assms(4) by linarith
  then have "q * int f + 1 \<le> e" by linarith
  then have "(q + 1) * int f \<le> e + int f - 1" by (simp add: algebra_simps)
  then have "((q + 1) * int f) div int f \<le> (e + int f - 1) div int f"
    using f by (rule zdiv_mono1)
  then have qn: "q < (e + int f - 1) div int f" using f by simp
  let ?t = "min (m + int (nat q) * int f) (m + e - int f)"
  have mem: "?t \<in> set (split_starts m e f)"
    using qn q0 by (auto simp: split_starts_def image_iff intro!: bexI[of _ "nat q"])
  have "?t \<le> x \<and> x < ?t + int f"
    using q0 e r assms(4) by (auto simp: min_def)
  with mem show ?thesis by blast
qed

lemma weight_table_lookup:
  assumes "m \<le> x" and "x < m + int n" and "r < nat (kernel_taps g)"
  shows "weight_table g m n ! nat (x - m) ! r = kernel_xy g x (int r)"
  using assms by (simp add: weight_table_def)

lemma resample_table_eq:
  assumes "m \<le> x" and "x < m + int n"
  shows "resample_table g (weight_table g m n) m x f = resample_1d g x f"
  using assms by (simp add: resample_table_def resample_1d_def weight_table_lookup)

lemma store_tile_value:
  assumes "in_tile (tile_factors g) t x y"
  shows "scheduled_value g input tabx mx (weight_table g (snd t) (snd (tile_factors g))) (snd t) x y c
         = tiled_value g input tabx mx x y c"
  using assms by (simp add: scheduled_value_def tiled_value_def in_tile_def resample_table_eq)

lemma store_tile_dims [simp]:
  "dim0 (store_tile g input tabx b t) = dim0 b" "dim1 (store_tile g input tabx b t) = dim1 b"
  "dim2 (store_tile g input tabx b t) = dim2 b"
  by (simp_all add: store_tile_def)

lemma run_tiles_data:
  "run_tiles g input tabx out ts = out\<lparr>data := (\<lambda>x y c.
      if (\<exists>t\<in>set ts. in_tile (tile_factors g) t x y) \<and> in_dim (dim2 out) c
      then tiled_value g input tabx (dmin (dim0 out)) x y c else data out x y c)\<rparr>"
proof (induction ts arbitrary: out rule: rev_induct)
  case Nil
  show ?case by (simp add: run_tiles_def)
next
  case (snoc t ts)
  show ?case
    using snoc.IH
    by (auto simp: run_tiles_def store_tile_def store_tile_value fun_eq_iff)
qed

lemma split_starts_empty: "e \<le> 0 \<Longrightarrow> 0 < f \<Longrightarrow> split_starts m e f = []"
proof -
  assume "e \<le> 0" "0 < f"
  then have "(e + int f - 1) div int f \<le> (int f - 1) div int f"
    by (intro zdiv_mono1) simp_all
  also have "(int f - 1) div int f = 0" using \<open>0 < f\<close> by (simp add: div_pos_pos_trivial)
  finally show ?thesis by (simp add: split_starts_def)
qed

lemma split_starts_hd:
  assumes "0 < e" and "0 < f"
  shows "min m (m + e - int f) \<in> set (split_starts m e f)"
proof -
  have "int f div int f \<le> (e + int f - 1) div int f"
    using assms by (intro zdiv_mono1) simp_all
  then have "0 < (e + int f - 1) div int f" using assms by simp
  then have "(0::nat) \<in> set [0..<nat ((e + int f - 1) div int f)]" by simp
  then show ?thesis
    unfolding split_starts_def set_map by (rule image_eqI[rotated]) simp
qed

lemma schedule_tiles_set:
  "t \<in> set (schedule_tiles g out) \<longleftrightarrow>
     fst t \<in> set (split_starts (dmin (dim0 out)) (extent (dim0 out)) (fst (tile_factors g)))
     \<and> snd t \<in> set (split_starts (dmin (dim1 out)) (extent (dim1 out)) (snd (tile_factors g)))"
  by (cases t) (auto simp: schedule_tiles_def)

lemma ex_schedule_tiles:
  "(\<exists>t\<in>set (schedule_tiles g out). P t) \<longleftrightarrow>
     (\<exists>tx\<in>set (split_starts (dmin (dim0 out)) (extent (dim0 out)) (fst (tile_factors g))).
      \<exists>ty\<in>set (split_starts (dmin (dim1 out)) (extent (dim1 out)) (snd (tile_factors g))). P (tx, ty))"
  by (auto simp: schedule_tiles_def)

lemma tile_factors_pos: "0 < fst (tile_factors g)" "0 < snd (tile_factors g)"
  by (simp_all add: tile_factors_def)

lemma fits_inside:
  assumes "fits e f" and "0 < f" and "t \<in> set (split_starts m e f)"
  shows "m \<le> t \<and> t + int f \<le> m + e"
  using assms split_starts_inside[of f e t m] split_starts_empty[of e f m] by (auto simp: fits_def)

lemma fits_covered:
  assumes "fits e f" and "0 < f"
  shows "(\<exists>t\<in>set (split_starts m e f). t \<le> x \<and> x < t + int f) \<longleftrightarrow> m \<le> x \<and> x < m + e"
proof
  assume "\<exists>t\<in>set (split_starts m e f). t \<le> x \<and> x < t + int f"
  then obtain t where "t \<in> set (split_starts m e f)" "t \<le> x" "x < t + int f" by blast
  with fits_inside[OF assms] show "m \<le> x \<and> x < m + e" by fastforce
next
  assume x: "m \<le> x \<and> x < m + e"
  then have "int f \<le> e" using assms(1) by (auto simp: fits_def)
  with x assms(2) show "\<exists>t\<in>set (split_starts m e f). t \<le> x \<and> x < t + int f"
    by (intro split_starts_cover) auto
qed

text \<open>With fitting extents, the tiles start inside the output buffer, and running all of
  them writes exactly what the pointwise definition writes.\<close>

lemma schedule_tiles_inside:
  assumes "fits (extent (dim0 out)) (fst (tile_factors g))"
    and "fits (extent (dim1 out)) (snd (tile_factors g))"
    and "t \<in> set (schedule_tiles g out)"
  shows "dmin (dim0 out) \<le> fst t \<and> dmin (dim1 out) \<le> snd t"
  using fits_inside[OF assms(1) tile_factors_pos(1)] fits_inside[OF assms(2) tile_factors_pos(2)] assms(3)
  by (auto simp: schedule_tiles_set)

lemma schedule_tiles_cover:
  assumes "fits (extent (dim0 out)) (fst (tile_factors g))"
    and "fits (extent (dim1 out)) (snd (tile_factors g))"
  shows "(\<exists>t\<in>set (schedule_tiles g out). in_tile (tile_factors g) t x y)
         \<longleftrightarrow> in_dim (dim0 out) x \<and> in_dim (dim1 out) y"
  using fits_covered[OF assms(1) tile_factors_pos(1), of "dmin (dim0 out)" x]
    fits_covered[OF assms(2) tile_factors_pos(2), of "dmin (dim1 out)" y]
  unfolding ex_schedule_tiles in_tile_def fst_conv snd_conv in_dim_def
  by blast

lemma tiled_value_output:
  assumes "in_dim (dim0 out) x"
  shows "tiled_value g input (weight_table g (dmin (dim0 out)) (nat (extent (dim0 out))))
           (dmin (dim0 out)) x y c = output_func g input x y c"
proof -
  have "resample_table g (weight_table g (dmin (dim0 out)) (nat (extent (dim0 out))))
          (dmin (dim0 out)) x f = resample_1d g x f" for f
    using assms by (intro resample_table_eq) (auto simp: in_dim_def)
  then show ?thesis
    by (simp add: tiled_value_def output_func_def final_pass_def passes_resample_1d)
qed

lemma run_tiles_schedule_realize:
  assumes "fits (extent (dim0 out)) (fst (tile_factors g))"
    and "fits (extent (dim1 out)) (snd (tile_factors g))"
  shows "run_tiles g input (weight_table g (dmin (dim0 out)) (nat (extent (dim0 out)))) out
           (schedule_tiles g out) = realize g input out"
  by (auto simp: run_tiles_data realize_def schedule_tiles_cover[OF assms] in_buffer_def
      tiled_value_output fun_eq_iff)

lemma run_schedule_fits:
  assumes "fits (extent (dim0 out)) (fst (tile_factors g))"
    and "fits (extent (dim1 out)) (snd (tile_factors g))"
  shows "run_schedule g input out = Inr (realize g input out)"
proof -
  have "\<not> (\<exists>t\<in>set (schedule_tiles g out). fst t < dmin (dim0 out))"
    and "\<not> (\<exists>t\<in>set (schedule_tiles g out). snd t < dmin (dim1 out))"
    using schedule_tiles_inside[OF assms] by force+
  then show ?thesis
    using run_tiles_schedule_realize[OF assms, of input] by (simp add: run_schedule_def)
qed

text \<open>C14: the tiles' stores commute: running the tiles of any list with the same set of
  tiles, in any order and with repetitions, gives the same output buffer, as
  \<open>parallel(y)\<close> requires.\<close>

theorem run_tiles_order_independent:
  assumes "set ts = set ts'"
  shows "run_tiles g input tabx out ts = run_tiles g input tabx out ts'"
  using assms by (simp add: run_tiles_data)

text \<open>C13: when each output extent is zero or at least the tile size in its dimension,
  the scheduled pipeline passes Halide's bounds check and writes exactly what the
  pointwise definition writes: every output pixel gets \<open>output(x, y, c)\<close> (computed
  through the memoised weight tables), everything else is unchanged.\<close>

theorem run_schedule_correct:
  assumes "fits (extent (dim0 out)) (fst (tile_factors g))"
    and "fits (extent (dim1 out)) (snd (tile_factors g))"
  shows "run_schedule g input out = Inr (realize g input out)"
  using assms by (rule run_schedule_fits)

text \<open>C15: an output whose x extent is positive but smaller than the tile width (16 when
  upsampling, 32 otherwise), with a non-empty y extent, makes the shift-inwards tile
  start before the buffer's min: the call fails. The spec's own scenario, a 4 by 4
  output, is such a call.\<close>

theorem run_schedule_small_extent:
  assumes "0 < extent (dim0 out)" and "extent (dim0 out) < int (fst (tile_factors g))"
    and "0 < extent (dim1 out)"
  shows "run_schedule g input out = Inl (OutputAccessedBeforeMin 0)"
proof -
  let ?tx = "min (dmin (dim0 out)) (dmin (dim0 out) + extent (dim0 out) - int (fst (tile_factors g)))"
  let ?ty = "min (dmin (dim1 out)) (dmin (dim1 out) + extent (dim1 out) - int (snd (tile_factors g)))"
  have "(?tx, ?ty) \<in> set (schedule_tiles g out)"
    using split_starts_hd[OF assms(1) tile_factors_pos(1)] split_starts_hd[OF assms(3) tile_factors_pos(2)]
    by (simp add: schedule_tiles_set)
  moreover have "?tx < dmin (dim0 out)" using assms(2) by simp
  ultimately have "\<exists>t\<in>set (schedule_tiles g out). fst t < dmin (dim0 out)" by force
  then show ?thesis by (simp add: run_schedule_def)
qed

theorem run_tiles_order_independent_witness:
  "set [(0::int, 0::int), (16, 0)] = set [(16, 0), (0, 0)]
   \<and> run_tiles \<lparr>interpolation_type = Box, upsample = True, scale_factor = 2\<rparr> checker_buffer []
       checker_buffer [(0, 0), (16, 0)]
     = run_tiles \<lparr>interpolation_type = Box, upsample = True, scale_factor = 2\<rparr> checker_buffer []
       checker_buffer [(16, 0), (0, 0)]"
proof -
  have h: "set [(0::int, 0::int), (16, 0)] = set [(16, 0), (0, 0)]" by auto
  show ?thesis
    using h run_tiles_order_independent[OF h, of "\<lparr>interpolation_type = Box, upsample = True, scale_factor = 2\<rparr>"
        checker_buffer "[]" checker_buffer]
    by simp
qed

theorem run_schedule_correct_witness:
  "fits (extent (dim0 (checker_buffer\<lparr>dim0 := \<lparr>dmin = 0, extent = 32\<rparr>, dim1 := \<lparr>dmin = 0, extent = 64\<rparr>\<rparr>)))
     (fst (tile_factors \<lparr>interpolation_type = Box, upsample = True, scale_factor = 2\<rparr>))
   \<and> fits (extent (dim1 (checker_buffer\<lparr>dim0 := \<lparr>dmin = 0, extent = 32\<rparr>, dim1 := \<lparr>dmin = 0, extent = 64\<rparr>\<rparr>)))
     (snd (tile_factors \<lparr>interpolation_type = Box, upsample = True, scale_factor = 2\<rparr>))
   \<and> run_schedule \<lparr>interpolation_type = Box, upsample = True, scale_factor = 2\<rparr> checker_buffer
       (checker_buffer\<lparr>dim0 := \<lparr>dmin = 0, extent = 32\<rparr>, dim1 := \<lparr>dmin = 0, extent = 64\<rparr>\<rparr>)
     = Inr (realize \<lparr>interpolation_type = Box, upsample = True, scale_factor = 2\<rparr> checker_buffer
       (checker_buffer\<lparr>dim0 := \<lparr>dmin = 0, extent = 32\<rparr>, dim1 := \<lparr>dmin = 0, extent = 64\<rparr>\<rparr>))"
  using run_schedule_correct[of "checker_buffer\<lparr>dim0 := \<lparr>dmin = 0, extent = 32\<rparr>, dim1 := \<lparr>dmin = 0, extent = 64\<rparr>\<rparr>"
      "\<lparr>interpolation_type = Box, upsample = True, scale_factor = 2\<rparr>" checker_buffer]
  by (simp add: fits_def tile_factors_def)

theorem run_schedule_small_extent_witness:
  "0 < extent (dim0 (checker_buffer\<lparr>dim0 := \<lparr>dmin = 0, extent = 4\<rparr>, dim1 := \<lparr>dmin = 0, extent = 4\<rparr>\<rparr>))
   \<and> extent (dim0 (checker_buffer\<lparr>dim0 := \<lparr>dmin = 0, extent = 4\<rparr>, dim1 := \<lparr>dmin = 0, extent = 4\<rparr>\<rparr>))
     < int (fst (tile_factors \<lparr>interpolation_type = Box, upsample = True, scale_factor = 2\<rparr>))
   \<and> 0 < extent (dim1 (checker_buffer\<lparr>dim0 := \<lparr>dmin = 0, extent = 4\<rparr>, dim1 := \<lparr>dmin = 0, extent = 4\<rparr>\<rparr>))
   \<and> run_schedule \<lparr>interpolation_type = Box, upsample = True, scale_factor = 2\<rparr> checker_buffer
       (checker_buffer\<lparr>dim0 := \<lparr>dmin = 0, extent = 4\<rparr>, dim1 := \<lparr>dmin = 0, extent = 4\<rparr>\<rparr>)
     = Inl (OutputAccessedBeforeMin 0)"
  using run_schedule_small_extent[of "checker_buffer\<lparr>dim0 := \<lparr>dmin = 0, extent = 4\<rparr>, dim1 := \<lparr>dmin = 0, extent = 4\<rparr>\<rparr>"
      "\<lparr>interpolation_type = Box, upsample = True, scale_factor = 2\<rparr>" checker_buffer]
  by (simp add: tile_factors_def)

end
