(* ===== verification/Parallel.thy ===== *)
theory Parallel
  imports Schedule "HOL-Library.Multiset"
begin

text \<open>
  The parallel tile loop: \<open>output.tile(...).parallel(y)\<close> (lines 155--172 of
  \<open>src/apps/resize/resize_generator.cpp\<close>) runs the rows of tiles on Halide's thread
  pool. The loop is modelled as the step relation \<open>par_step\<close>: a state is the output
  buffer and the multiset of pending tiles, and a step stores any one pending tile
  (\<open>store_tile\<close> of theory \<open>Schedule\<close>). This admits every order and interleaving of the
  workers, more than \<open>parallel(y)\<close> allows, so what holds of all its executions holds of
  the program's. Tiles write disjoint or agreeing values, so rule induction over the
  reachable states shows that the buffer is always the stores of the tiles run so far;
  hence every complete execution gives \<open>realize\<close>, and the loop always terminates.
\<close>

text \<open>A tile is its origin \<open>(x, y)\<close>; a state of the parallel loop is the output
  buffer and the multiset of tiles still to run.\<close>

type_synonym tile = "coord \<times> coord"
type_synonym par_state = "Buffer \<times> tile multiset"

text \<open>One step: some worker takes a pending tile and stores it.\<close>

inductive par_step :: "Resize \<Rightarrow> Buffer \<Rightarrow> real list list \<Rightarrow> par_state \<Rightarrow> par_state \<Rightarrow> bool"
  for g input tabx where
  run_tile: "t \<in># P \<Longrightarrow> par_step g input tabx (b, P) (store_tile g input tabx b t, P - {#t#})"

text \<open>The buffer after the tiles of \<open>S\<close> have been stored, in any order.\<close>

definition stored :: "Resize \<Rightarrow> Buffer \<Rightarrow> real list list \<Rightarrow> Buffer \<Rightarrow> tile set \<Rightarrow> Buffer" where
  "stored g input tabx out S = out\<lparr>data := (\<lambda>x y c.
      if (\<exists>t\<in>S. in_tile (tile_factors g) t x y) \<and> in_dim (dim2 out) c
      then tiled_value g input tabx (dmin (dim0 out)) x y c else data out x y c)\<rparr>"

text \<open>A 32 by 64 single-channel output: two 16 by 64 tiles when upsampling.\<close>

definition out32x64 :: Buffer where
  "out32x64 = \<lparr>dim0 = \<lparr>dmin = 0, extent = 32\<rparr>, dim1 = \<lparr>dmin = 0, extent = 64\<rparr>,
     dim2 = \<lparr>dmin = 0, extent = 1\<rparr>, data = (\<lambda>x y c. 0)\<rparr>"

definition box_up2 :: Resize where
  "box_up2 = \<lparr>interpolation_type = Box, upsample = True, scale_factor = 2\<rparr>"

subsection \<open>The invariant of the parallel loop\<close>

lemma stored_empty [simp]: "stored g input tabx out {} = out"
  by (simp add: stored_def)

lemma store_tile_stored:
  "store_tile g input tabx (stored g input tabx out S) t = stored g input tabx out (insert t S)"
  by (auto simp: stored_def store_tile_def store_tile_value fun_eq_iff)

lemma run_tiles_stored: "run_tiles g input tabx out ts = stored g input tabx out (set ts)"
  by (simp add: run_tiles_data stored_def)

lemma par_reach_inv:
  assumes "(par_step g input tabx)\<^sup>*\<^sup>* (out, M) s"
  shows "snd s \<subseteq># M \<and> fst s = stored g input tabx out (set_mset (M - snd s))"
  using assms
proof (induction rule: rtranclp_induct)
  case base
  show ?case by simp
next
  case (step s s')
  from step.hyps(2) obtain b P t where s: "s = (b, P)" and t: "t \<in># P"
    and s': "s' = (store_tile g input tabx b t, P - {#t#})"
    by (auto elim: par_step.cases)
  have sub: "P \<subseteq># M" and b: "b = stored g input tabx out (set_mset (M - P))"
    using step.IH s by simp_all
  obtain P0 where P: "P = add_mset t P0" using multi_member_split[OF t] by blast
  obtain R where M: "M = P + R" using sub by (auto simp: subset_mset.le_iff_add)
  have "M - (P - {#t#}) = add_mset t (M - P)"
    by (simp add: P M)
  then show ?case
    using sub b s' by (auto simp: store_tile_stored intro: subset_mset.order_trans[OF diff_subset_eq_self])
qed

lemma parallel_tiles_deterministic:
  assumes "(par_step g input tabx)\<^sup>*\<^sup>* (out, mset ts) (b, {#})"
  shows "b = run_tiles g input tabx out ts"
  using par_reach_inv[OF assms] by (simp add: run_tiles_stored)

subsection \<open>A concrete run\<close>

text \<open>The 32 by 64 output of the box upsampler by two has two tiles; running the
  right-hand one first is a reachable state.\<close>

lemma out32x64_fits:
  "fits (extent (dim0 out32x64)) (fst (tile_factors box_up2))"
  "fits (extent (dim1 out32x64)) (snd (tile_factors box_up2))"
  by (simp_all add: fits_def tile_factors_def out32x64_def box_up2_def)

lemma out32x64_tiles: "mset (schedule_tiles box_up2 out32x64) = {#(0, 0), (16, 0)#}"
  by (simp add: schedule_tiles_def split_starts_def tile_factors_def out32x64_def box_up2_def
      upt_rec)

lemma out32x64_first_tile:
  "(par_step box_up2 checker_buffer (weight_table box_up2 (dmin (dim0 out32x64)) (nat (extent (dim0 out32x64)))))\<^sup>*\<^sup>*
     (out32x64, mset (schedule_tiles box_up2 out32x64))
     (store_tile box_up2 checker_buffer (weight_table box_up2 (dmin (dim0 out32x64)) (nat (extent (dim0 out32x64)))) out32x64 (16, 0), {#(0, 0)#})"
  using par_step.run_tile[of "(16, 0)" "{#(0, 0), (16, 0)#}" box_up2 checker_buffer "weight_table box_up2 (dmin (dim0 out32x64)) (nat (extent (dim0 out32x64)))" out32x64]
  by (simp add: out32x64_tiles)

text \<open>C21: every complete execution of the parallel tile loop is correct. With output
  extents that are zero or at least one tile (as in C13) and the root x-weight table,
  any execution that runs all the tiles of \<open>schedule_tiles\<close>, in any order and any
  interleaving of the workers, leaves the output buffer equal to \<open>realize\<close>, the
  pointwise definition of the pipeline.\<close>

theorem parallel_schedule_correct:
  assumes "fits (extent (dim0 out)) (fst (tile_factors g))"
    and "fits (extent (dim1 out)) (snd (tile_factors g))"
    and "(par_step g input (weight_table g (dmin (dim0 out)) (nat (extent (dim0 out)))))\<^sup>*\<^sup>*
           (out, mset (schedule_tiles g out)) (b, {#})"
  shows "b = realize g input out"
  using parallel_tiles_deterministic[OF assms(3)] run_tiles_schedule_realize[OF assms(1,2)] by simp

theorem parallel_schedule_correct_witness:
  "fits (extent (dim0 out32x64)) (fst (tile_factors box_up2))
   \<and> fits (extent (dim1 out32x64)) (snd (tile_factors box_up2))
   \<and> (par_step box_up2 checker_buffer (weight_table box_up2 (dmin (dim0 out32x64)) (nat (extent (dim0 out32x64)))))\<^sup>*\<^sup>*
       (out32x64, mset (schedule_tiles box_up2 out32x64))
       (store_tile box_up2 checker_buffer (weight_table box_up2 (dmin (dim0 out32x64)) (nat (extent (dim0 out32x64))))
          (store_tile box_up2 checker_buffer (weight_table box_up2 (dmin (dim0 out32x64)) (nat (extent (dim0 out32x64))))
             out32x64 (16, 0)) (0, 0), {#})
   \<and> store_tile box_up2 checker_buffer (weight_table box_up2 (dmin (dim0 out32x64)) (nat (extent (dim0 out32x64))))
          (store_tile box_up2 checker_buffer (weight_table box_up2 (dmin (dim0 out32x64)) (nat (extent (dim0 out32x64))))
             out32x64 (16, 0)) (0, 0)
     = realize box_up2 checker_buffer out32x64"
proof -
  let ?T = "weight_table box_up2 (dmin (dim0 out32x64)) (nat (extent (dim0 out32x64)))"
  let ?b1 = "store_tile box_up2 checker_buffer ?T out32x64 (16, 0)"
  let ?b2 = "store_tile box_up2 checker_buffer ?T ?b1 (0, 0)"
  have "par_step box_up2 checker_buffer ?T (?b1, {#(0, 0)#}) (?b2, {#})"
    using par_step.run_tile[of "(0, 0)" "{#(0, 0)#}" box_up2 checker_buffer ?T ?b1] by simp
  then have r: "(par_step box_up2 checker_buffer ?T)\<^sup>*\<^sup>*
      (out32x64, mset (schedule_tiles box_up2 out32x64)) (?b2, {#})"
    using out32x64_first_tile by (rule rtranclp.rtrancl_into_rtrancl[rotated])
  show ?thesis using out32x64_fits r parallel_schedule_correct[OF out32x64_fits r] by simp
qed

text \<open>C23: an invariant of the parallel loop. In every state reachable from the start
  of the tile loop (fitting extents, as in C13), the output buffer keeps its geometry and
  each sample holds either its value before the call or its final value: a partially
  run loop never exposes any other value, whatever the order of the workers.\<close>

theorem parallel_states_consistent:
  assumes "fits (extent (dim0 out)) (fst (tile_factors g))"
    and "fits (extent (dim1 out)) (snd (tile_factors g))"
    and "(par_step g input (weight_table g (dmin (dim0 out)) (nat (extent (dim0 out)))))\<^sup>*\<^sup>*
           (out, mset (schedule_tiles g out)) (b, P)"
  shows "dim0 b = dim0 out \<and> dim1 b = dim1 out \<and> dim2 b = dim2 out
         \<and> (\<forall>x y c. data b x y c \<in> {data out x y c, data (realize g input out) x y c})"
proof -
  let ?M = "mset (schedule_tiles g out)"
  have b: "b = stored g input (weight_table g (dmin (dim0 out)) (nat (extent (dim0 out)))) out
                 (set_mset (?M - P))"
    using par_reach_inv[OF assms(3)] by simp
  have sub: "set_mset (?M - P) \<subseteq> set (schedule_tiles g out)"
    by (metis in_diffD set_mset_mset subsetI)
  have "data b x y c \<in> {data out x y c, data (realize g input out) x y c}" for x y c
  proof (cases "(\<exists>t\<in>set_mset (?M - P). in_tile (tile_factors g) t x y) \<and> in_dim (dim2 out) c")
    case True
    then have "in_dim (dim0 out) x \<and> in_dim (dim1 out) y"
      using sub schedule_tiles_cover[OF assms(1,2), of x y] by blast
    with True show ?thesis
      by (simp add: b stored_def realize_def in_buffer_def tiled_value_output)
  next
    case False
    then show ?thesis by (auto simp: b stored_def)
  qed
  then show ?thesis by (simp add: b stored_def)
qed

theorem parallel_states_consistent_witness:
  "fits (extent (dim0 out32x64)) (fst (tile_factors box_up2))
   \<and> fits (extent (dim1 out32x64)) (snd (tile_factors box_up2))
   \<and> (par_step box_up2 checker_buffer (weight_table box_up2 (dmin (dim0 out32x64)) (nat (extent (dim0 out32x64)))))\<^sup>*\<^sup>*
       (out32x64, mset (schedule_tiles box_up2 out32x64))
       (store_tile box_up2 checker_buffer (weight_table box_up2 (dmin (dim0 out32x64)) (nat (extent (dim0 out32x64)))) out32x64 (16, 0), {#(0, 0)#})
   \<and> data (store_tile box_up2 checker_buffer (weight_table box_up2 (dmin (dim0 out32x64)) (nat (extent (dim0 out32x64)))) out32x64 (16, 0)) 20 3 0
       \<in> {data out32x64 20 3 0, data (realize box_up2 checker_buffer out32x64) 20 3 0}"
  using out32x64_fits out32x64_first_tile
    parallel_states_consistent[OF out32x64_fits out32x64_first_tile]
  by blast

end
