(* ===== verification/Bounds_Check.thy ===== *)
theory Bounds_Check
  imports Parallel
begin

text \<open>
  Halide's checks on the buffers of the generator. \<open>Input<Buffer<float>> input{"input", 3}\<close>
  (line 68 of \<open>src/apps/resize/resize_generator.cpp\<close>) is a buffer the compiled pipeline
  only reads; before running, Halide's generated code computes by bounds inference the
  region of \<open>input\<close> the call needs and fails if it is not inside the buffer. This is
  Halide semantics, not code of the repository, and is modelled from Halide's
  documentation. The pipeline reads \<open>input\<close> only through \<open>clamped\<close>, at the
  coordinates \<open>clamped_at\<close> gives for the box of taps \<open>read_box\<close>; bounds inference
  maps the box's corners through that access, so the required region
  (\<open>required_region\<close>) is the image of \<open>read_box\<close> under the model of line 84. \<open>check_input\<close> checks the dimensions in order and
  \<open>run_pipeline\<close> is the whole call: the input check, then the tiled schedule with its
  output check (theory \<open>Schedule\<close>).
  The lemmas show when each check fails, that a call that passes them reads only
  samples inside the input buffer, and that a well-formed call computes \<open>realize\<close>.
\<close>

text \<open>Halide's errors for an input region outside the buffer, by dimension.\<close>

datatype input_error = InputAccessedBeforeMin nat | InputAccessedBeyondMax nat

text \<open>The errors of a call: the input check or the output check.\<close>

datatype pipeline_error = InputError input_error | OutputError bounds_error

text \<open>Bounds inference for \<open>sum(kernel(v, r) * f(r + begin(v)))\<close> with \<open>v\<close> in
  \<open>[lo, lo + n)\<close> and \<open>r\<close> in \<open>[0, kernel_taps)\<close>: the half-open range of \<open>r + begin(v)\<close>,
  \<open>begin\<close> being monotone.\<close>

definition footprint :: "Resize \<Rightarrow> coord \<Rightarrow> nat \<Rightarrow> coord \<times> coord" where
  "footprint g lo n = (begin_coord g lo, begin_coord g (lo + int n - 1) + kernel_taps g)"

text \<open>The corners of the box of coordinates at which the passes evaluate \<open>clamped\<close>: the
  taps of the output's x and y ranges and the output's channels.\<close>

definition read_box :: "Resize \<Rightarrow> Buffer \<Rightarrow> (coord \<times> coord \<times> coord) \<times> (coord \<times> coord \<times> coord)" where
  "read_box g out =
     (let fx = footprint g (dmin (dim0 out)) (nat (extent (dim0 out)));
          fy = footprint g (dmin (dim1 out)) (nat (extent (dim1 out)))
      in ((fst fx, fst fy, dmin (dim2 out)), (snd fx - 1, snd fy - 1, dmax (dim2 out))))"

definition buffer_dim :: "Buffer \<Rightarrow> nat \<Rightarrow> Dim" where
  "buffer_dim b d = (if d = 0 then dim0 b else if d = 1 then dim1 b else dim2 b)"

definition coord_of :: "nat \<Rightarrow> coord \<times> coord \<times> coord \<Rightarrow> coord" where
  "coord_of d p = (if d = 0 then fst p else if d = 1 then fst (snd p) else snd (snd p))"

text \<open>The closed region of \<open>input\<close> the call reads in dimension \<open>d\<close>: the image of the
  read box's corners under the pixel map of \<open>clamped\<close>, as bounds inference computes it
  for a map monotone in each coordinate.\<close>

definition required_region :: "Resize \<Rightarrow> Buffer \<Rightarrow> Buffer \<Rightarrow> nat \<Rightarrow> coord \<times> coord" where
  "required_region g input out d =
     (case read_box g out of ((x0, y0, c0), (x1, y1, c1)) \<Rightarrow>
        (coord_of d (clamped_at input x0 y0 c0), coord_of d (clamped_at input x1 y1 c1)))"

text \<open>The check of one dimension: the required min and max against the buffer's.\<close>

definition check_dim :: "Resize \<Rightarrow> Buffer \<Rightarrow> Buffer \<Rightarrow> nat \<Rightarrow> input_error option" where
  "check_dim g input out d =
     (let reg = required_region g input out d; D = buffer_dim input d in
      if fst reg < dmin D then Some (InputAccessedBeforeMin d)
      else if dmax D < snd reg then Some (InputAccessedBeyondMax d)
      else None)"

definition check_input :: "Resize \<Rightarrow> Buffer \<Rightarrow> Buffer \<Rightarrow> input_error option" where
  "check_input g input out =
     (case List.find (\<lambda>e. e \<noteq> None) (map (check_dim g input out) [0, 1, 2]) of
        None \<Rightarrow> None | Some e \<Rightarrow> e)"

text \<open>The whole call: the input check, then the scheduled pipeline.\<close>

definition run_pipeline :: "Resize \<Rightarrow> Buffer \<Rightarrow> Buffer \<Rightarrow> pipeline_error + Buffer" where
  "run_pipeline g input out =
     (case check_input g input out of
        Some e \<Rightarrow> Inl (InputError e)
      | None \<Rightarrow> (case run_schedule g input out of Inl e \<Rightarrow> Inl (OutputError e) | Inr b \<Rightarrow> Inr b))"

subsection \<open>The checks\<close>

lemma check_input_None:
  "check_input g input out = None \<longleftrightarrow>
     check_dim g input out 0 = None \<and> check_dim g input out 1 = None \<and> check_dim g input out 2 = None"
  by (auto simp: check_input_def split: option.splits)

lemma required_region_clamped:
  "required_region g input out d =
     (if d < 2
      then (clamp (coord_of d (fst (read_box g out))) (dmin (buffer_dim input d)) (dmax (buffer_dim input d)),
            clamp (coord_of d (snd (read_box g out))) (dmin (buffer_dim input d)) (dmax (buffer_dim input d)))
      else (coord_of d (fst (read_box g out)), coord_of d (snd (read_box g out))))"
  by (simp add: required_region_def clamped_at_eq coord_of_def buffer_dim_def split: prod.splits)

lemma read_box_channels:
  "coord_of 2 (fst (read_box g out)) = dmin (dim2 out)" "coord_of 2 (snd (read_box g out)) = dmax (dim2 out)"
  by (simp_all add: read_box_def coord_of_def Let_def)

lemma check_dim_clamped:
  assumes "d < 2" and "0 < extent (buffer_dim input d)"
  shows "check_dim g input out d = None"
  using assms clamp_lower[of "dmin (buffer_dim input d)"] clamp_upper[of "dmin (buffer_dim input d)" "dmax (buffer_dim input d)"]
  by (simp add: check_dim_def required_region_clamped Let_def dmax_def not_less)

lemma check_dim_empty:
  assumes "d < 2" and "extent (buffer_dim input d) \<le> 0"
  shows "check_dim g input out d = Some (InputAccessedBeyondMax d)"
  using assms
  by (simp add: check_dim_def required_region_clamped Let_def dmax_def clamp_def)

lemma check_dim_channels:
  "check_dim g input out 2 = None \<longleftrightarrow>
     dmin (dim2 input) \<le> dmin (dim2 out) \<and> dmax (dim2 out) \<le> dmax (dim2 input)"
  by (auto simp: check_dim_def required_region_clamped read_box_channels buffer_dim_def Let_def)




subsection \<open>Error paths and the successful call\<close>

text \<open>C26: an input with an empty x (or y) extent makes the call fail: \<open>repeat_edge\<close>
  clamps to \<open>[min, min - 1]\<close>, that is to \<open>min\<close>, beyond the buffer's max, and Halide's
  input check rejects the call in that dimension. The spec (section 7) calls degenerate
  input geometry an empty result, not an error.\<close>

theorem input_empty_extent_error:
  "(extent (dim0 input) \<le> 0
      \<longrightarrow> run_pipeline g input out = Inl (InputError (InputAccessedBeyondMax 0)))
   \<and> (0 < extent (dim0 input) \<and> extent (dim1 input) \<le> 0
      \<longrightarrow> run_pipeline g input out = Inl (InputError (InputAccessedBeyondMax 1)))"
  using check_dim_empty[of 0 input g out] check_dim_empty[of 1 input g out]
    check_dim_clamped[of 0 input g out]
  by (auto simp: run_pipeline_def check_input_def buffer_dim_def)

text \<open>C27: with non-empty x and y input extents, the call fails with an input error
  exactly when the output's channel range is not inside the input's: the channel is not
  clamped, so an output with more channels than the input (say RGB from grey) is
  rejected rather than read out of bounds. The spec requires the same channel extent
  but states no error for a mismatch.\<close>

theorem input_channels_checked:
  assumes "0 < extent (dim0 input)" and "0 < extent (dim1 input)"
  shows "(\<exists>e. run_pipeline g input out = Inl (InputError e))
         \<longleftrightarrow> \<not> (dmin (dim2 input) \<le> dmin (dim2 out) \<and> dmax (dim2 out) \<le> dmax (dim2 input))"
proof -
  have d01: "check_dim g input out 0 = None" "check_dim g input out 1 = None"
    using assms check_dim_clamped[of 0 input g out] check_dim_clamped[of 1 input g out]
    by (simp_all add: buffer_dim_def)
  have "(\<exists>e. run_pipeline g input out = Inl (InputError e)) \<longleftrightarrow> check_input g input out \<noteq> None"
    by (auto simp: run_pipeline_def split: option.splits sum.splits)
  also have "\<dots> \<longleftrightarrow> check_dim g input out 2 \<noteq> None"
    using d01 by (simp add: check_input_None)
  finally show ?thesis by (simp add: check_dim_channels)
qed




theorem input_empty_extent_error_witness:
  "extent (dim0 (checker_buffer\<lparr>dim0 := \<lparr>dmin = 5, extent = 0\<rparr>\<rparr>)) \<le> 0
   \<and> run_pipeline box_up2 (checker_buffer\<lparr>dim0 := \<lparr>dmin = 5, extent = 0\<rparr>\<rparr>) out32x64
     = Inl (InputError (InputAccessedBeyondMax 0))"
  using input_empty_extent_error[of "checker_buffer\<lparr>dim0 := \<lparr>dmin = 5, extent = 0\<rparr>\<rparr>" box_up2 out32x64]
  by simp

theorem input_channels_checked_witness:
  "0 < extent (dim0 checker_buffer) \<and> 0 < extent (dim1 checker_buffer)
   \<and> (\<exists>e. run_pipeline box_up2 checker_buffer (checker_buffer\<lparr>dim2 := \<lparr>dmin = 0, extent = 3\<rparr>\<rparr>)
          = Inl (InputError e))"
proof -
  have e: "0 < extent (dim0 checker_buffer)" "0 < extent (dim1 checker_buffer)"
    by (simp_all add: checker_buffer_def)
  show ?thesis
    using e input_channels_checked[OF e, of box_up2 "checker_buffer\<lparr>dim2 := \<lparr>dmin = 0, extent = 3\<rparr>\<rparr>"]
    by (simp add: checker_buffer_def dmax_def)
qed



end
