(* ===== verification/Spec2Isabelle.thy ===== *)
theory Spec2Isabelle
  imports Schedule Parallel Bounds_Check
begin

text \<open>
  \<^bold>\<open>A verification library for the Halide resize generator.\<close>

  The program is \<open>src/apps/resize/resize_generator.cpp\<close>, a Halide generator that
  resamples a three-dimensional float image (x, y, channel) by an arbitrary scale factor
  with a separable interpolation kernel. Its parts, and the theories that model them:

  \<^item> \<^bold>\<open>Kernel library\<close> (lines 5--52) and the \<^bold>\<open>generator parameter\<close>
    \<open>interpolation_type\<close> (lines 56--61): theory \<open>Kernels\<close>. The enum is the datatype
    \<open>InterpolationType\<close>; \<open>kernel_box\<close>, \<open>kernel_linear\<close>, \<open>kernel_cubic\<close>,
    \<open>sinc\<close> and \<open>kernel_lanczos\<close> are real functions with the source's \<open>select\<close>s as
    \<open>if\<close>s; the struct \<open>KernelInfo\<close> is a record and \<open>kernel_info[]\<close> the list
    \<open>kernel_info_table\<close>, indexed by the enum value (\<open>interp_index\<close>). The parameter's
    string table is \<open>interpolation_type_names\<close>; setting it (\<open>set_interpolation_type\<close>)
    returns \<open>param_error + InterpolationType\<close>, the error being Halide's rejection of an
    unknown enum string.
  \<^item> \<^bold>\<open>Boundary handler\<close> (lines 68, 83--85): theory \<open>Boundary\<close>. The input buffer is
    the record \<open>Buffer\<close> (three \<open>Dim\<close>s with \<open>dmin\<close> and \<open>extent\<close>, and the samples
    \<open>data\<close>). Halide's \<open>BoundaryConditions::repeat_edge\<close> is library code, modelled from
    its documentation as the coordinate map \<open>repeat_edge_at\<close>: it clamps each bounded
    dimension to its box and passes the others through. \<open>clamped_at\<close> is the call of
    line 84 (the bounds of x and y from the input buffer, the channel unbounded) and
    \<open>clamped\<close>, the generator's \<open>Func clamped\<close>, reads the input at that coordinate.
  \<^item> \<^bold>\<open>Kernel weight generator\<close> (lines 87--116): theory \<open>Weights\<close>. The record
    \<open>Resize\<close> holds the two generator parameters and the scalar input
    \<open>scale_factor\<close>; \<open>kernel_scaling\<close>, \<open>kernel_radius\<close>, \<open>kernel_taps\<close>,
    \<open>source_coord\<close> (\<open>sourcex\<close>/\<open>sourcey\<close>), \<open>begin_coord\<close> (\<open>beginx\<close>/\<open>beginy\<close>),
    \<open>unnormalized_kernel\<close>, \<open>kernel_sum\<close> and \<open>kernel_xy\<close> (\<open>kernel_x\<close>/\<open>kernel_y\<close>)
    are the \<open>Expr\<close>s and \<open>Func\<close>s of the same names. The x and y versions of each
    \<open>Func\<close> are one function of their coordinate, so each pair is one definition.
  \<^item> \<^bold>\<open>Separable resampler\<close> (lines 118--129): theory \<open>Resampler\<close>. The two branches
    of \<open>if (upsample)\<close> are \<open>up_resized_x\<close>/\<open>up_resized_y\<close> (x first) and
    \<open>down_resized_y\<close>/\<open>down_resized_x\<close> (y first); \<open>final_pass\<close> is the last pass of
    the chosen branch and \<open>output_func\<close> the \<open>Func output\<close>, its value clamped to
    \<open>[0, 1]\<close>; \<open>realize\<close> writes it into the caller's output buffer. The
    one-dimensional filter common to all passes is \<open>resample_1d\<close>, and
    \<open>resample_spec\<close> is the textbook resampling sum over the kernel's whole support,
    the abstract specification the passes refine.
  \<^item> \<^bold>\<open>Execution strategy\<close> (\<open>schedule()\<close>, lines 132--175): theory \<open>Schedule\<close>.
    \<open>output.tile(x, y, xi, yi, 16, 64)\<close> (or \<open>32, 8\<close>) is the list of tile origins
    \<open>schedule_tiles\<close>, each split's outer loop given by \<open>split_starts\<close> with Halide's
    shift-inwards tail (Halide semantics, modelled from its documentation);
    \<open>kernel_x.compute_root()\<close> and \<open>kernel_y.compute_at(output, y)\<close> are memoised weight
    tables (\<open>weight_table\<close>) read by index (\<open>resample_table\<close>); a tile stores the
    pipeline's value at its pixels (\<open>store_tile\<close>), the tiles run in loop order
    (\<open>run_tiles\<close>), and \<open>run_schedule\<close> adds Halide's check that the tiles lie inside
    the output buffer, returning \<open>bounds_error + Buffer\<close>. Vectorisation and the
    \<open>compute_at\<close> of the intermediate passes change where values are computed, not what
    they are, and are folded into the stored value.
  \<^item> \<^bold>\<open>Parallel tile loop\<close> (\<open>.parallel(y)\<close>, lines 158 and 169): theory
    \<open>Parallel\<close>. The inductive relation \<open>par_step\<close> stores any one pending tile of a
    multiset; its executions include every order and interleaving of the workers.
  \<^item> \<^bold>\<open>Halide's buffer checks\<close> (\<open>Input<Buffer<float>> input\<close>, line 68, read through
    \<open>clamped\<close>, lines 83--85): theory \<open>Bounds_Check\<close>, from Halide's documentation. The
    taps of the output buffer's pixels span the box \<open>read_box\<close> (\<open>footprint\<close> in x and
    y, the output's channel range in c); Halide's bounds inference maps its two corners
    through the access \<open>clamped_at\<close> of the boundary handler, so the region of
    \<open>input\<close> a call needs (\<open>required_region\<close>) follows the model of line 84 and changes
    with it. \<open>check_input\<close> compares that region with the buffer dimension by dimension,
    and \<open>run_pipeline\<close>, the whole call, returns \<open>pipeline_error + Buffer\<close>: an input
    error, the output error of \<open>run_schedule\<close>, or the written buffer.

  How they interact: \<open>output\<close> reads the two last-pass \<open>Func\<close>s, which read
  \<open>clamped\<close> and the weight tables \<open>kernel_x\<close>, \<open>kernel_y\<close>; the tables read the kernel
  chosen by \<open>interpolation_type\<close> through \<open>kernel_info[]\<close>. Everything is pure: a
  \<open>Func\<close> is a HOL function of its integer coordinates; the only state is the output
  buffer, threaded through the tiles of the schedule.

  Representation choices. Float values are exact reals: the theorems are about the
  algorithm in exact arithmetic, not about single-precision rounding (so "sums to one"
  is exact here and within rounding in the program). Coordinates are \<open>int\<close>; Halide's
  32-bit overflow would need images of more than two billion pixels per row. A float
  division by zero gives NaN, the model's real division gives 0; the theorems that
  divide state or derive that the divisor is non-zero. \<open>RDom r(0, kernel_taps)\<close> is a
  sum over \<open>r < nat kernel_taps\<close>. Every loop of the program has a bound fixed before it
  starts (the taps, the tiles), so the model is total and needs no fuel.

  What the lemmas show (claim ids in the text before each theorem):
  \<^item> \<open>Weights\<close>: the normalised weights add up to one (C1); when upsampling with the
    box, linear or cubic kernel the normalisation is the identity, because these kernels
    are partitions of unity (C2); with \<open>upsample\<close> false and a scale factor of three or
    more the linear kernel's sum is zero, a division by zero in the code (C9); in every
    well-configured call with the box, linear or cubic kernel the sum is positive, so the
    normalisation never divides by zero (C20). For the cubic kernel this is a counting
    argument: at a spacing of at most one, the samples in \<open>[-1/2, 1/2]\<close> (each at least
    \<open>9/16\<close>) outweigh those in the negative lobes (each at least \<open>-2/27\<close>). Downsampling
    by three with the Lanczos kernel, a tap lies on the centre of every window and is
    under-weighted by \<open>pi\<^sup>2\<close> relative to its neighbours, the effect of the missing
    \<open>pi\<close> of C10 on the weights (C22). Supporting lemmas show that the window contains
    every source pixel strictly inside the kernel's support and that the sums are
    positive in the well-configured box and linear cases.
  \<^item> \<open>Resampler\<close>: the box and linear kernels keep a \<open>[0, 1]\<close> input in range, so the
    final clamp is inactive for them (C3); scale factor one reproduces the input for
    every kernel (C4); the two pass orders agree (C5); integer box upsampling is
    nearest-neighbour sampling, the spec's 2 by 2 scenario (C6); each pass refines the
    textbook resampling sum (C7); the cubic kernel overshoots every step edge, from
    \<open>a\<close> to \<open>b\<close>, by \<open>9/128\<close> of the step, so the clamp is needed for it (C16); integer box
    downsampling is area averaging (C17); a flat input stays flat whenever the kernel
    sums are non-zero (C18); before the clamp the pipeline is linear in its input (C19).
  \<^item> \<open>Boundary\<close>: \<open>clamped\<close> reads the nearest in-buffer pixel (C8).
  \<^item> \<open>Kernels\<close>: the code's Lanczos kernel is \<open>pi\<^sup>2\<close> times the spec's away from zero
    (C10); an unknown parameter name is an error, and only such a name is (C11); the
    kernels are even (C12); every index of \<open>kernel_info[]\<close> by the enum is in bounds and
    every entry is a kernel of its declared width (C24).
  \<^item> \<open>Schedule\<close>: with output extents that are zero or at least one tile, the tiled,
    memoised pipeline writes exactly what the pointwise definition writes (C13); the
    result depends only on the set of tiles, so any order of the parallel tiles gives it
    (C14); an output extent between zero and the tile width makes the call fail, the
    spec's own 4 by 4 scenario among them (C15).
  \<^item> \<open>Parallel\<close>: by rule induction over the reachable states, every complete parallel
    execution of the tiles gives \<open>realize\<close> (C21); every intermediate state holds, at
    each sample, either the value before the call or the final value (C23).
  \<^item> \<open>Bounds_Check\<close>: an empty input x or y extent makes the call fail, where the spec
    expects an empty result (C26); with non-empty input extents the call fails exactly
    when the output's channels are not inside the input's (C27); a call that passes the
    check reads no sample outside the input buffer (C28); with non-empty input extents
    and channels inside the input's, the checked call computes \<open>realize\<close> (C29).
  \<^item> This theory: end to end, a well-configured call maps a flat image to a flat image,
    composing the boundary handler, the kernel sums, the passes and the schedule (C25).

  Open: positivity of the Lanczos kernel sum when downsampling, the one configuration for
  which C20 is not proved (its counting argument needs lower bounds on the sampled
  \<open>sinc\<close> products at arbitrary offsets, which the libraries at hand do not give), and the
  normalised Lanczos weights at a concrete scale compared numerically with the spec's.

  Not modelled: image I/O and command-line parsing, which are not in the repository's
  sources and which the spec puts out of scope; the generator registration
  (\<open>HALIDE_REGISTER_GENERATOR\<close>, line 178), which only names the class for the build
  and has no behaviour of the pipeline; the \<open>#include\<close>, the member \<open>Func\<close> and the
  \<open>Var\<close> declarations (lines 1--3, 70, 73--79), which the model's definitions and bound
  variables replace; the Halide compiler and runtime beyond the semantics of \<open>Func\<close>
  definitions, the schedule's loops and the buffer checks of a call; float rounding, so
  in particular the NaN that a zero kernel sum or a non-positive \<open>scale_factor\<close>
  produces (the spec leaves \<open>scale_factor \<le> 0\<close> undefined, and the code does not
  check it).
\<close>

section \<open>Properties spanning the components\<close>

text \<open>C25: end to end, a flat image stays flat. For every well-configured call (a kernel
  other than Lanczos, a positive scale factor, \<open>upsample\<close> set or the scale factor at
  most one) whose output extents are zero or at least one tile, and an input whose
  samples are all \<open>v\<close>, the scheduled pipeline passes the bounds check and writes
  \<open>clamp(v, 0, 1)\<close> at every pixel of the output buffer, leaving the rest unchanged. It
  composes the boundary handler, the positivity of the kernel sums (so the weights are
  normalised and never divided by zero), the flat-field property of the passes and
  the correctness of the tiled schedule.\<close>

theorem flat_image_end_to_end:
  assumes "interpolation_type g \<noteq> Lanczos" and "0 < scale_factor g"
    and "upsample g \<or> scale_factor g \<le> 1"
    and "fits (extent (dim0 out)) (fst (tile_factors g))"
    and "fits (extent (dim1 out)) (snd (tile_factors g))"
    and "\<forall>i j c. data input i j c = v"
  shows "run_schedule g input out
         = Inr (out\<lparr>data := (\<lambda>x y c. if in_buffer out x y c then clamp v 0 1 else data out x y c)\<rparr>)"
proof -
  have ks: "kernel_sum g z \<noteq> 0" for z
    using kernel_sum_pos_config[OF assms(1-3), of z] by simp
  have cl: "(\<lambda>i. clamped input i j c) = (\<lambda>_. v)" "(\<lambda>j. clamped input i j c) = (\<lambda>_. v)" for i j c
    using assms(6) by (simp_all add: clamped_eq fun_eq_iff)
  have val: "output_func g input x y c = clamp v 0 1" for x y c
    by (simp add: output_func_def final_pass_def passes_resample_1d cl resample_1d_const ks)
  show ?thesis
    using run_schedule_fits[OF assms(4,5), of input] by (simp add: realize_def val cong: if_cong)
qed

theorem flat_image_end_to_end_witness:
  "interpolation_type box_up2 \<noteq> Lanczos \<and> 0 < scale_factor box_up2
   \<and> upsample box_up2
   \<and> fits (extent (dim0 out32x64)) (fst (tile_factors box_up2))
   \<and> fits (extent (dim1 out32x64)) (snd (tile_factors box_up2))
   \<and> run_schedule box_up2 (checker_buffer\<lparr>data := (\<lambda>i j c. 1/2)\<rparr>) out32x64
     = Inr (out32x64\<lparr>data := (\<lambda>x y c. if in_buffer out32x64 x y c then 1/2 else data out32x64 x y c)\<rparr>)"
proof -
  have g: "interpolation_type box_up2 \<noteq> Lanczos" "0 < scale_factor box_up2"
    "upsample box_up2 \<or> scale_factor box_up2 \<le> 1"
    by (simp_all add: box_up2_def)
  show ?thesis
    using g out32x64_fits
      flat_image_end_to_end[OF g out32x64_fits, of "checker_buffer\<lparr>data := (\<lambda>i j c. 1/2)\<rparr>" "1/2"]
    by (simp add: clamp_def box_up2_def cong: if_cong)
qed

end
